theory Spec2Isabelle
  imports Complex_Main
begin

section \<open>Numbers of the host\<close>

text \<open>
  xex works on JavaScript numbers only.  A number is NaN, one of the two infinities,
  negative zero, or a finite value; \<open>Fin 0\<close> is positive zero.  Finite values are
  idealised as reals: the operations below follow ECMAScript's case tables for the
  special values and compute exactly on finite ones (rounding, overflow and underflow
  of doubles are not part of the model).
\<close>

datatype num = NaN | PInf | NInf | NZero | Fin real

fun isNaN :: "num \<Rightarrow> bool" where
  "isNaN NaN = True"
| "isNaN _ = False"

fun is_zero :: "num \<Rightarrow> bool" where
  "is_zero NZero = True"
| "is_zero (Fin x) = (x = 0)"
| "is_zero _ = False"

fun is_inf :: "num \<Rightarrow> bool" where
  "is_inf PInf = True"
| "is_inf NInf = True"
| "is_inf _ = False"

text \<open>The sign bit: set for \<open>-Infinity\<close>, \<open>-0\<close> and the negative finite values.\<close>

fun sign_bit :: "num \<Rightarrow> bool" where
  "sign_bit NInf = True"
| "sign_bit NZero = True"
| "sign_bit (Fin x) = (x < 0)"
| "sign_bit _ = False"

definition zero_of :: "bool \<Rightarrow> num" where
  "zero_of s = (if s then NZero else Fin 0)"

definition inf_of :: "bool \<Rightarrow> num" where
  "inf_of s = (if s then NInf else PInf)"

text \<open>The real value of a finite number (both zeros are 0).\<close>

fun real_of :: "num \<Rightarrow> real" where
  "real_of (Fin x) = x"
| "real_of _ = 0"

text \<open>A finite result: a zero result takes the given sign.\<close>

definition fin_of :: "bool \<Rightarrow> real \<Rightarrow> num" where
  "fin_of s r = (if r = 0 then zero_of s else Fin r)"

text \<open>Truthiness of a number (\<open>!val\<close>, \<open>&&\<close>, \<open>||\<close>): 0, -0 and NaN are falsy.\<close>

definition falsy :: "num \<Rightarrow> bool" where
  "falsy x = (isNaN x \<or> is_zero x)"

text \<open>Unary \<open>+\<close> on a boolean.\<close>

definition b2n :: "bool \<Rightarrow> num" where
  "b2n b = (if b then Fin 1 else Fin 0)"

subsection \<open>Comparison\<close>

text \<open>
  The rank of a number that is not NaN in the order of the extended reals;
  the two zeros have the same rank.
\<close>

fun rank :: "num \<Rightarrow> int \<times> real" where
  "rank NInf = (-1, 0)"
| "rank PInf = (1, 0)"
| "rank NZero = (0, 0)"
| "rank (Fin x) = (0, x)"
| "rank NaN = (2, 0)"

definition rank_less :: "int \<times> real \<Rightarrow> int \<times> real \<Rightarrow> bool" where
  "rank_less p q = (fst p < fst q \<or> (fst p = fst q \<and> snd p < snd q))"

definition js_lt :: "num \<Rightarrow> num \<Rightarrow> bool" where
  "js_lt x y = (\<not> isNaN x \<and> \<not> isNaN y \<and> rank_less (rank x) (rank y))"

definition js_seq :: "num \<Rightarrow> num \<Rightarrow> bool" where
  "js_seq x y = (\<not> isNaN x \<and> \<not> isNaN y \<and> rank x = rank y)"

definition js_le :: "num \<Rightarrow> num \<Rightarrow> bool" where
  "js_le x y = (js_lt x y \<or> js_seq x y)"

subsection \<open>Arithmetic\<close>

fun js_neg :: "num \<Rightarrow> num" where
  "js_neg NaN = NaN"
| "js_neg PInf = NInf"
| "js_neg NInf = PInf"
| "js_neg NZero = Fin 0"
| "js_neg (Fin x) = (if x = 0 then NZero else Fin (- x))"

definition js_add :: "num \<Rightarrow> num \<Rightarrow> num" where
  "js_add x y =
    (if isNaN x \<or> isNaN y then NaN
     else if is_inf x then (if is_inf y \<and> x \<noteq> y then NaN else x)
     else if is_inf y then y
     else if x = NZero \<and> y = NZero then NZero
     else Fin (real_of x + real_of y))"

definition js_sub :: "num \<Rightarrow> num \<Rightarrow> num" where
  "js_sub x y = js_add x (js_neg y)"

definition js_mul :: "num \<Rightarrow> num \<Rightarrow> num" where
  "js_mul x y =
    (let s = (sign_bit x \<noteq> sign_bit y) in
     if isNaN x \<or> isNaN y then NaN
     else if is_inf x \<or> is_inf y then
       (if is_zero x \<or> is_zero y then NaN else inf_of s)
     else fin_of s (real_of x * real_of y))"

definition js_div :: "num \<Rightarrow> num \<Rightarrow> num" where
  "js_div x y =
    (let s = (sign_bit x \<noteq> sign_bit y) in
     if isNaN x \<or> isNaN y then NaN
     else if is_inf x then (if is_inf y then NaN else inf_of s)
     else if is_inf y then zero_of s
     else if is_zero y then (if is_zero x then NaN else inf_of s)
     else fin_of s (real_of x / real_of y))"

text \<open>
  The remainder \<open>x % y\<close> truncates the quotient towards zero and takes the sign of
  the dividend.
\<close>

definition trunc_real :: "real \<Rightarrow> real" where
  "trunc_real r = (if r < 0 then - of_int \<lfloor>- r\<rfloor> else of_int \<lfloor>r\<rfloor>)"

definition js_rem :: "num \<Rightarrow> num \<Rightarrow> num" where
  "js_rem x y =
    (if isNaN x \<or> isNaN y then NaN
     else if is_inf x then NaN
     else if is_inf y then x
     else if is_zero y then NaN
     else if is_zero x then x
     else fin_of (sign_bit x)
            (real_of x - real_of y * trunc_real (real_of x / real_of y)))"

subsection \<open>The host's Math functions that are exact\<close>

fun Math_floor :: "num \<Rightarrow> num" where
  "Math_floor (Fin x) = Fin (of_int \<lfloor>x\<rfloor>)"
| "Math_floor x = x"

fun Math_ceil :: "num \<Rightarrow> num" where
  "Math_ceil (Fin x) = fin_of (x < 0) (of_int \<lceil>x\<rceil>)"
| "Math_ceil x = x"

fun Math_trunc :: "num \<Rightarrow> num" where
  "Math_trunc (Fin x) = fin_of (x < 0) (trunc_real x)"
| "Math_trunc x = x"

fun Math_round :: "num \<Rightarrow> num" where
  "Math_round (Fin x) = fin_of (x < 0) (of_int \<lfloor>x + 1 / 2\<rfloor>)"
| "Math_round x = x"

fun Math_abs :: "num \<Rightarrow> num" where
  "Math_abs NaN = NaN"
| "Math_abs PInf = PInf"
| "Math_abs NInf = PInf"
| "Math_abs NZero = Fin 0"
| "Math_abs (Fin x) = Fin \<bar>x\<bar>"

fun Math_sign :: "num \<Rightarrow> num" where
  "Math_sign NaN = NaN"
| "Math_sign PInf = Fin 1"
| "Math_sign NInf = Fin (- 1)"
| "Math_sign NZero = NZero"
| "Math_sign (Fin x) = (if x = 0 then Fin 0 else if x < 0 then Fin (- 1) else Fin 1)"

text \<open>
  \<open>Math.min\<close> and \<open>Math.max\<close> take any number of arguments.  A NaN argument makes
  the result NaN; \<open>+0\<close> counts as larger than \<open>-0\<close>; without arguments the results
  are \<open>Infinity\<close> and \<open>-Infinity\<close>.
\<close>

definition min2 :: "num \<Rightarrow> num \<Rightarrow> num" where
  "min2 x y =
    (if isNaN x \<or> isNaN y then NaN
     else if js_lt y x \<or> (y = NZero \<and> x = Fin 0) then y else x)"

definition max2 :: "num \<Rightarrow> num \<Rightarrow> num" where
  "max2 x y =
    (if isNaN x \<or> isNaN y then NaN
     else if js_lt x y \<or> (x = NZero \<and> y = Fin 0) then y else x)"

definition Math_min :: "num list \<Rightarrow> num" where
  "Math_min xs = foldl min2 PInf xs"

definition Math_max :: "num list \<Rightarrow> num" where
  "Math_max xs = foldl max2 NInf xs"

text \<open>
  \<open>Math.pow\<close>, after Number::exponentiate.  An integral exponent gives the exact
  power; a fractional one the real power of a positive base.
\<close>

definition is_integral :: "real \<Rightarrow> bool" where
  "is_integral r = (of_int \<lfloor>r\<rfloor> = r)"

definition is_odd_int :: "num \<Rightarrow> bool" where
  "is_odd_int y = (case y of Fin r \<Rightarrow> is_integral r \<and> odd \<lfloor>r\<rfloor> | _ \<Rightarrow> False)"

definition real_pow :: "real \<Rightarrow> real \<Rightarrow> real" where
  "real_pow b e =
    (if is_integral e then
       (if 0 \<le> e then b ^ nat \<lfloor>e\<rfloor> else 1 / b ^ nat \<lfloor>- e\<rfloor>)
     else b powr e)"

definition Math_pow :: "num \<Rightarrow> num \<Rightarrow> num" where
  "Math_pow b e =
    (let pos = js_lt (Fin 0) e in
     if isNaN e then NaN
     else if is_zero e then Fin 1
     else if isNaN b then NaN
     else if b = PInf then (if pos then PInf else Fin 0)
     else if b = NInf then
       (if pos then (if is_odd_int e then NInf else PInf)
        else (if is_odd_int e then NZero else Fin 0))
     else if b = Fin 0 then (if pos then Fin 0 else PInf)
     else if b = NZero then
       (if pos then (if is_odd_int e then NZero else Fin 0)
        else (if is_odd_int e then NInf else PInf))
     else if is_inf e then
       (if \<bar>real_of b\<bar> = 1 then NaN
        else if (1 < \<bar>real_of b\<bar>) = pos then PInf else Fin 0)
     else if real_of b < 0 \<and> \<not> is_integral (real_of e) then NaN
     else Fin (real_pow (real_of b) (real_of e)))"

section \<open>Errors\<close>

text \<open>
  \<open>ExpressionError message position\<close> is the library's own error class; the position
  is \<open>-1\<close> when the error is not tied to a token.  \<open>TypeError\<close> is the host's error for
  a write to a frozen object and for a call of something that is not a function.
\<close>

datatype error = ExpressionError string int | TypeError

definition throwExpressionError :: "string \<Rightarrow> error + 'a" where
  "throwExpressionError msg = Inl (ExpressionError msg (- 1))"

text \<open>Sequencing of calls that may throw.\<close>

definition and_then :: "error + 'a \<Rightarrow> ('a \<Rightarrow> error + 'b) \<Rightarrow> error + 'b" where
  "and_then r f = (case r of Inl e \<Rightarrow> Inl e | Inr x \<Rightarrow> f x)"

section \<open>Environment\<close>

text \<open>
  A definition object as \<open>add\<close> receives and stores it.  A property the object may
  lack is an option (\<open>None\<close> is \<open>undefined\<close>); \<open>d_safe\<close> is only ever tested for
  truthiness, so a missing \<open>safe\<close> is \<open>False\<close>.  The name is a string and the
  callback returns a number by typing.
\<close>

record defn =
  d_type :: string
  d_name :: string
  d_value :: "num option"
  d_args :: "num option"
  d_amax :: "num option"
  d_prec :: "num option"
  d_rtl :: "bool option"
  d_safe :: bool
  d_eval :: "(num list \<Rightarrow> num) option"
  d_emit :: "string option"

text \<open>
  The environment: the two tables \<open>lang\<close> and \<open>func\<close> and the \<open>frozen\<close> property.
  \<open>sealed\<close> records that the host's \<open>Object.freeze\<close> has been applied to the object
  and its two tables (\<open>freeze()\<close> applies it to all three): a sealed object rejects
  every write with a TypeError, as the whole file runs in strict mode.
\<close>

record Environment =
  lang :: "string \<rightharpoonup> defn"
  func :: "string \<rightharpoonup> (num list \<Rightarrow> num)"
  frozen :: bool
  sealed :: bool

definition new_Environment :: Environment where
  "new_Environment = \<lparr> lang = Map.empty, func = Map.empty, frozen = False, sealed = False \<rparr>"


text \<open>
  \<open>freeze()\<close>: freezing the tables never fails; the assignment \<open>this.frozen = true\<close>
  is a write to \<open>this\<close>, which a sealed object rejects.  A method that throws has
  written nothing before, so an error carries no environment.
\<close>

definition freeze :: "Environment \<Rightarrow> error + Environment" where
  "freeze this =
    (if sealed this then Inl TypeError
     else Inr (this \<lparr> frozen := True, sealed := True \<rparr>))"

definition get :: "Environment \<Rightarrow> string \<Rightarrow> defn option" where
  "get this name = lang this name"

definition type_error_msg :: "string \<Rightarrow> string \<Rightarrow> string \<Rightarrow> string" where
  "type_error_msg ty name prop =
     ty @ '' '' @ [CHR 0x27] @ name @ [CHR 0x27] @ '' must provide '' @ [CHR 0x27] @ prop @ [CHR 0x27] @ '' property''"

text \<open>The checks of \<open>add\<close> that the cases Operator and Function share.\<close>

definition add_callable :: "defn \<Rightarrow> Environment \<Rightarrow> error + Environment" where
  "add_callable def this =
    (if d_args def = None then throwExpressionError (type_error_msg (d_type def) (d_name def) ''args'')
     else if d_amax def = None then throwExpressionError (type_error_msg (d_type def) (d_name def) ''amax'')
     else if d_emit def = None then throwExpressionError (type_error_msg (d_type def) (d_name def) ''emit'')
     else case d_eval def of
       None \<Rightarrow> throwExpressionError (type_error_msg (d_type def) (d_name def) ''eval'')
     | Some f \<Rightarrow>
         if sealed this then Inl TypeError
         else Inr (this \<lparr> func := (func this)(d_name def \<mapsto> f),
                          lang := (lang this)(d_name def \<mapsto> def) \<rparr>))"

definition add :: "defn \<Rightarrow> Environment \<Rightarrow> error + Environment" where
  "add def this =
    (if frozen this then throwExpressionError ''Environment is frozen''
     else if lang this (d_name def) \<noteq> None then
       throwExpressionError (''Identifier '' @ [CHR 0x27] @ d_name def @ [CHR 0x27] @ '' already defined'')
     else if d_type def = ''Constant'' then
       (if d_value def = None then
          throwExpressionError (''Constant '' @ [CHR 0x27] @ d_name def @ [CHR 0x27] @
            '' must be a number, not '' @ [CHR 0x27] @ ''undefined'' @ [CHR 0x27])
        else if sealed this then Inl TypeError
        else Inr (this \<lparr> lang := (lang this)(d_name def \<mapsto> def) \<rparr>))
     else if d_type def = ''Operator'' then
       (if d_prec def = None then
          throwExpressionError (d_type def @ '' '' @ [CHR 0x27] @ d_name def @ [CHR 0x27] @
            '' must provide '' @ [CHR 0x27] @ ''prec'' @ [CHR 0x27] @ '' property'')
        else if d_rtl def = None then
          throwExpressionError (d_type def @ '' '' @ [CHR 0x27] @ d_name def @ [CHR 0x27] @
            '' must provide '' @ [CHR 0x27] @ ''rtl'' @ [CHR 0x27] @ ''  property'')
        else add_callable def this)
     else if d_type def = ''Function'' then add_callable def this
     else throwExpressionError (''Type '' @ [CHR 0x27] @ d_type def @ [CHR 0x27] @ '' not recognized''))"

text \<open>\<open>del(name)\<close>: a sealed table rejects the deletion of a property it has.\<close>

definition del :: "string \<Rightarrow> Environment \<Rightarrow> error + Environment" where
  "del name this =
    (if frozen this then throwExpressionError ''Environment is frozen''
     else if sealed this \<and> (lang this name \<noteq> None \<or> func this name \<noteq> None) then Inl TypeError
     else Inr (this \<lparr> lang := (lang this)(name := None), func := (func this)(name := None) \<rparr>))"

subsection \<open>The builders\<close>

text \<open>
  \<open>accessProp(name)\<close> is \<open>.name\<close> for an identifier and \<open>[<JSON string>]\<close> otherwise.
\<close>

definition charCode :: "char \<Rightarrow> nat" where
  "charCode c = of_char c"

definition is_digit_char :: "char \<Rightarrow> bool" where
  "is_digit_char c = (48 \<le> charCode c \<and> charCode c \<le> 57)"

definition is_word_char :: "char \<Rightarrow> bool" where
  "is_word_char c =
    ((65 \<le> charCode c \<and> charCode c \<le> 90) \<or> (97 \<le> charCode c \<and> charCode c \<le> 122) \<or>
     is_digit_char c \<or> c = CHR ''_'')"

definition is_prop_ident :: "string \<Rightarrow> bool" where
  "is_prop_ident s =
    (case s of [] \<Rightarrow> False
     | c # cs \<Rightarrow> ((is_word_char c \<and> \<not> is_digit_char c) \<or> c = CHR ''$'') \<and>
                list_all (\<lambda>d. is_word_char d \<or> d = CHR ''$'') cs)"

definition hex_digit :: "nat \<Rightarrow> char" where
  "hex_digit n = (''0123456789abcdef'' ! (n mod 16))"

text \<open>\<open>JSON.stringify\<close> of a string of ASCII characters.\<close>

definition json_char :: "char \<Rightarrow> string" where
  "json_char c =
    (if c = CHR 0x22 then [CHR 0x5C, CHR 0x22]
     else if c = CHR 0x5C then [CHR 0x5C, CHR 0x5C]
     else if c = CHR 0x08 then [CHR 0x5C, CHR ''b'']
     else if c = CHR 0x0C then [CHR 0x5C, CHR ''f'']
     else if c = CHR 0x0A then [CHR 0x5C, CHR ''n'']
     else if c = CHR 0x0D then [CHR 0x5C, CHR ''r'']
     else if c = CHR 0x09 then [CHR 0x5C, CHR ''t'']
     else if charCode c < 32 then
       [CHR 0x5C, CHR ''u'', CHR ''0'', CHR ''0'', hex_digit (charCode c div 16), hex_digit (charCode c)]
     else [c])"

definition JSON_stringify :: "string \<Rightarrow> string" where
  "JSON_stringify s = [CHR 0x22] @ concat (map json_char s) @ [CHR 0x22]"

definition accessProp :: "string \<Rightarrow> string" where
  "accessProp name =
    (if is_prop_ident name then ''.'' @ name else ''['' @ JSON_stringify name @ '']'')"

text \<open>
  What a caller passes to \<open>addUnary\<close>, \<open>addBinary\<close> and \<open>addFunction\<close>.  \<open>b_rtl\<close> is the
  truthiness of \<open>rtl\<close>; \<open>b_safe\<close> is \<open>False\<close> only for \<open>safe: false\<close>.
\<close>

record builder =
  b_name :: string
  b_args :: "num option"
  b_amax :: "num option"
  b_prec :: "num option"
  b_rtl :: bool
  b_safe :: bool
  b_eval :: "(num list \<Rightarrow> num) option"
  b_emit :: "string option"

text \<open>\<open>x || dflt\<close> on an optional number and on an optional string.\<close>

definition num_or :: "num option \<Rightarrow> num \<Rightarrow> num" where
  "num_or x dflt = (case x of None \<Rightarrow> dflt | Some n \<Rightarrow> if falsy n then dflt else n)"

definition str_or :: "string option \<Rightarrow> string \<Rightarrow> string" where
  "str_or x dflt = (case x of None \<Rightarrow> dflt | Some s \<Rightarrow> if s = [] then dflt else s)"

text \<open>The object literals that the four builders pass to \<open>add\<close>.\<close>

definition constant_defn :: "string \<Rightarrow> num option \<Rightarrow> defn" where
  "constant_defn name v =
     \<lparr> d_type = ''Constant'', d_name = name, d_value = v, d_args = None, d_amax = None,
       d_prec = None, d_rtl = None, d_safe = False, d_eval = None, d_emit = None \<rparr>"

definition unary_defn :: "builder \<Rightarrow> defn" where
  "unary_defn def =
     \<lparr> d_type = ''Operator'', d_name = ''unary'' @ b_name def, d_value = None,
       d_args = Some (Fin 1), d_amax = Some (Fin 1),
       d_prec = Some (num_or (b_prec def) (Fin 0)), d_rtl = Some (b_rtl def),
       d_safe = b_safe def, d_eval = b_eval def,
       d_emit = Some (str_or (b_emit def) (''$'' @ accessProp (b_name def) @ ''(@1)'')) \<rparr>"

definition binary_defn :: "builder \<Rightarrow> defn" where
  "binary_defn def =
     \<lparr> d_type = ''Operator'', d_name = b_name def, d_value = None,
       d_args = Some (Fin 2), d_amax = Some (Fin 2),
       d_prec = Some (num_or (b_prec def) (Fin 0)), d_rtl = Some (b_rtl def),
       d_safe = b_safe def, d_eval = b_eval def,
       d_emit = Some (str_or (b_emit def) (''$'' @ accessProp (b_name def) @ ''(@1, @2)'')) \<rparr>"

definition function_defn :: "builder \<Rightarrow> defn" where
  "function_defn def =
     \<lparr> d_type = ''Function'', d_name = b_name def, d_value = None,
       d_args = b_args def,
       d_amax = (case b_amax def of Some n \<Rightarrow> Some n | None \<Rightarrow> b_args def),
       d_prec = Some (Fin 0), d_rtl = Some False,
       d_safe = b_safe def, d_eval = b_eval def,
       d_emit = Some (str_or (b_emit def) (''$'' @ accessProp (b_name def) @ ''(@args)'')) \<rparr>"

definition addConstant :: "string \<Rightarrow> num option \<Rightarrow> Environment \<Rightarrow> error + Environment" where
  "addConstant name v = add (constant_defn name v)"

definition addUnary :: "builder \<Rightarrow> Environment \<Rightarrow> error + Environment" where
  "addUnary def = add (unary_defn def)"

definition addBinary :: "builder \<Rightarrow> Environment \<Rightarrow> error + Environment" where
  "addBinary def = add (binary_defn def)"

definition addFunction :: "builder \<Rightarrow> Environment \<Rightarrow> error + Environment" where
  "addFunction def = add (function_defn def)"

text \<open>
  A chain of builder calls \<open>this.addX(...).addY(...)\<close>: each call returns \<open>this\<close>, and
  the first throw ends the chain.
\<close>

datatype call =
  AddConstant string "num option"
| AddUnary builder
| AddBinary builder
| AddFunction builder

fun invoke :: "call \<Rightarrow> Environment \<Rightarrow> error + Environment" where
  "invoke (AddConstant name v) this = addConstant name v this"
| "invoke (AddUnary def) this = addUnary def this"
| "invoke (AddBinary def) this = addBinary def this"
| "invoke (AddFunction def) this = addFunction def this"

fun chain :: "call list \<Rightarrow> Environment \<Rightarrow> error + Environment" where
  "chain [] this = Inr this"
| "chain (c # cs) this = and_then (invoke c this) (chain cs)"

subsection \<open>The default environment\<close>

text \<open>
  A positional parameter of a callback; a parameter without an argument is
  \<open>undefined\<close>, which the arithmetic of the callbacks below reads as NaN.
\<close>

definition arg :: "num list \<Rightarrow> nat \<Rightarrow> num" where
  "arg xs i = (if i < length xs then xs ! i else NaN)"

definition fn1 :: "(num \<Rightarrow> num) \<Rightarrow> num list \<Rightarrow> num" where
  "fn1 f xs = f (arg xs 0)"

definition fn2 :: "(num \<Rightarrow> num \<Rightarrow> num) \<Rightarrow> num list \<Rightarrow> num" where
  "fn2 f xs = f (arg xs 0) (arg xs 1)"

definition frac :: "num \<Rightarrow> num" where
  "frac x = js_sub x (Math_floor x)"

definition isnan :: "num \<Rightarrow> num" where
  "isnan x = b2n (isNaN x)"

definition isinf :: "num \<Rightarrow> num" where
  "isinf x = b2n (js_seq x PInf \<or> js_seq x NInf)"

definition isfinite :: "num \<Rightarrow> num" where
  "isfinite x = b2n (\<not> isNaN x \<and> \<not> is_inf x)"

definition isint :: "num \<Rightarrow> num" where
  "isint x = b2n (\<not> isNaN x \<and> \<not> is_inf x \<and> is_integral (real_of x))"

definition issafeint :: "num \<Rightarrow> num" where
  "issafeint x =
     b2n (\<not> isNaN x \<and> \<not> is_inf x \<and> is_integral (real_of x) \<and> \<bar>real_of x\<bar> \<le> 2 ^ 53 - 1)"

definition bineq :: "num \<Rightarrow> num \<Rightarrow> num" where
  "bineq x y = b2n (js_seq x y \<or> (isNaN x \<and> isNaN y))"

text \<open>
  \<open>minmaxval(op)\<close>: the first loop reads arguments into \<open>x\<close> up to the first one that
  is not NaN; the second combines the remaining arguments that are not NaN.
\<close>

fun skip_nan :: "num \<Rightarrow> num list \<Rightarrow> num \<times> num list" where
  "skip_nan x [] = (x, [])"
| "skip_nan x (a # as) = (if isNaN a then skip_nan a as else (a, as))"

fun combine_vals :: "(num \<Rightarrow> num \<Rightarrow> num) \<Rightarrow> num \<Rightarrow> num list \<Rightarrow> num" where
  "combine_vals op x [] = x"
| "combine_vals op x (y # ys) =
     (if \<not> isNaN y then combine_vals op (op x y) ys else combine_vals op x ys)"

definition minmaxval :: "(num list \<Rightarrow> num) \<Rightarrow> num list \<Rightarrow> num" where
  "minmaxval op arguments =
     (case skip_nan NaN arguments of
        (x, rest) \<Rightarrow> combine_vals (\<lambda>a b. op [a, b]) x rest)"

text \<open>The object literals of the construction below.\<close>

definition un_op :: "string \<Rightarrow> real \<Rightarrow> bool \<Rightarrow> (num list \<Rightarrow> num) \<Rightarrow> string option \<Rightarrow> builder" where
  "un_op nm p r ev em =
     \<lparr> b_name = nm, b_args = None, b_amax = None, b_prec = Some (Fin p), b_rtl = r,
       b_safe = True, b_eval = Some ev, b_emit = em \<rparr>"

definition fn_def :: "string \<Rightarrow> num \<Rightarrow> num \<Rightarrow> (num list \<Rightarrow> num) \<Rightarrow> string option \<Rightarrow> builder" where
  "fn_def nm a m ev em =
     \<lparr> b_name = nm, b_args = Some a, b_amax = Some m, b_prec = None, b_rtl = False,
       b_safe = True, b_eval = Some ev, b_emit = em \<rparr>"

text \<open>
  The environment the module exports.  \<open>M\<close> stands for the host's inexact \<open>Math\<close>
  functions, by name; the exact ones are those defined above.
\<close>

definition xex_calls :: "(string \<Rightarrow> num list \<Rightarrow> num) \<Rightarrow> call list" where
  "xex_calls M =
   [AddConstant ''Infinity'' (Some PInf),
    AddConstant ''NaN'' (Some NaN),
    AddConstant ''PI'' (Some (Fin pi)),
    AddUnary (un_op ''-'' 3 True (fn1 js_neg) (Some ''-(@1)'')),
    AddUnary (un_op ''!'' 3 True (fn1 (\<lambda>v. b2n (falsy v))) (Some ''+!(@1)'')),
    AddBinary (un_op ''+'' 6 False (fn2 js_add) (Some ''@1 + @2'')),
    AddBinary (un_op ''-'' 6 False (fn2 js_sub) (Some ''@1 - @2'')),
    AddBinary (un_op ''*'' 5 False (fn2 js_mul) (Some ''@1 * @2'')),
    AddBinary (un_op ''/'' 5 False (fn2 js_div) (Some ''@1 / @2'')),
    AddBinary (un_op ''%'' 5 False (fn2 js_rem) (Some ''@1 % @2'')),
    AddBinary (un_op ''&&'' 13 False (fn2 (\<lambda>x y. if falsy x then x else y)) (Some ''+(@1 && @2)'')),
    AddBinary (un_op ''||'' 14 False (fn2 (\<lambda>x y. if falsy x then y else x)) (Some ''+(@1 || @2)'')),
    AddBinary (un_op ''=='' 9 False (fn2 (\<lambda>x y. b2n (js_seq x y))) (Some ''+(@1 === @2)'')),
    AddBinary (un_op ''!='' 9 False (fn2 (\<lambda>x y. b2n (\<not> js_seq x y))) (Some ''+(@1 !== @2)'')),
    AddBinary (un_op ''~='' 9 False (fn2 bineq) None),
    AddBinary (un_op ''<'' 8 False (fn2 (\<lambda>x y. b2n (js_lt x y))) (Some ''+(@1 < @2)'')),
    AddBinary (un_op ''<='' 8 False (fn2 (\<lambda>x y. b2n (js_le x y))) (Some ''+(@1 <= @2)'')),
    AddBinary (un_op ''>'' 8 False (fn2 (\<lambda>x y. b2n (js_lt y x))) (Some ''+(@1 > @2)'')),
    AddBinary (un_op ''>='' 8 False (fn2 (\<lambda>x y. b2n (js_le y x))) (Some ''+(@1 >= @2)'')),
    AddFunction (fn_def ''isinf'' (Fin 1) (Fin 1) (fn1 isinf) None),
    AddFunction (fn_def ''isint'' (Fin 1) (Fin 1) (fn1 isint) (Some ''+Number.isInteger(@1)'')),
    AddFunction (fn_def ''issafeint'' (Fin 1) (Fin 1) (fn1 issafeint) (Some ''+Number.isSafeInteger(@1)'')),
    AddFunction (fn_def ''isnan'' (Fin 1) (Fin 1) (fn1 isnan) (Some ''+Number.isNaN(@1)'')),
    AddFunction (fn_def ''isfinite'' (Fin 1) (Fin 1) (fn1 isfinite) (Some ''+Number.isFinite(@1)'')),
    AddFunction (fn_def ''abs'' (Fin 1) (Fin 1) (fn1 Math_abs) None),
    AddFunction (fn_def ''sign'' (Fin 1) (Fin 1) (fn1 Math_sign) None),
    AddFunction (fn_def ''round'' (Fin 1) (Fin 1) (fn1 Math_round) None),
    AddFunction (fn_def ''trunc'' (Fin 1) (Fin 1) (fn1 Math_trunc) None),
    AddFunction (fn_def ''floor'' (Fin 1) (Fin 1) (fn1 Math_floor) None),
    AddFunction (fn_def ''ceil'' (Fin 1) (Fin 1) (fn1 Math_ceil) None),
    AddFunction (fn_def ''frac'' (Fin 1) (Fin 1) (fn1 frac) None),
    AddFunction (fn_def ''sqrt'' (Fin 1) (Fin 1) (M ''sqrt'') None),
    AddFunction (fn_def ''cbrt'' (Fin 1) (Fin 1) (M ''cbrt'') None),
    AddFunction (fn_def ''exp'' (Fin 1) (Fin 1) (M ''exp'') None),
    AddFunction (fn_def ''expm1'' (Fin 1) (Fin 1) (M ''expm1'') None),
    AddFunction (fn_def ''log'' (Fin 1) (Fin 1) (M ''log'') None),
    AddFunction (fn_def ''log2'' (Fin 1) (Fin 1) (M ''log2'') None),
    AddFunction (fn_def ''log10'' (Fin 1) (Fin 1) (M ''log10'') None),
    AddFunction (fn_def ''sin'' (Fin 1) (Fin 1) (M ''sin'') None),
    AddFunction (fn_def ''sinh'' (Fin 1) (Fin 1) (M ''sinh'') None),
    AddFunction (fn_def ''cos'' (Fin 1) (Fin 1) (M ''cos'') None),
    AddFunction (fn_def ''cosh'' (Fin 1) (Fin 1) (M ''cosh'') None),
    AddFunction (fn_def ''tan'' (Fin 1) (Fin 1) (M ''tan'') None),
    AddFunction (fn_def ''tanh'' (Fin 1) (Fin 1) (M ''tanh'') None),
    AddFunction (fn_def ''asin'' (Fin 1) (Fin 1) (M ''asin'') None),
    AddFunction (fn_def ''asinh'' (Fin 1) (Fin 1) (M ''asinh'') None),
    AddFunction (fn_def ''acos'' (Fin 1) (Fin 1) (M ''acos'') None),
    AddFunction (fn_def ''acosh'' (Fin 1) (Fin 1) (M ''acosh'') None),
    AddFunction (fn_def ''atan'' (Fin 1) (Fin 1) (M ''atan'') None),
    AddFunction (fn_def ''atanh'' (Fin 1) (Fin 1) (M ''atanh'') None),
    AddFunction (fn_def ''min'' (Fin 2) PInf Math_min None),
    AddFunction (fn_def ''minval'' (Fin 2) PInf (minmaxval Math_min) None),
    AddFunction (fn_def ''max'' (Fin 2) PInf Math_max None),
    AddFunction (fn_def ''maxval'' (Fin 2) PInf (minmaxval Math_max) None),
    AddFunction (fn_def ''pow'' (Fin 2) (Fin 2) (fn2 Math_pow) None),
    AddFunction (fn_def ''atan2'' (Fin 2) (Fin 2) (M ''atan2'') None),
    AddFunction (fn_def ''hypot'' (Fin 2) (Fin 2) (M ''hypot'') None)]"

definition xex :: "(string \<Rightarrow> num list \<Rightarrow> num) \<Rightarrow> error + Environment" where
  "xex M = chain (xex_calls M) new_Environment"

subsection \<open>What a chain of builder calls leaves in the table\<close>

text \<open>The definition object a builder call hands to \<open>add\<close>.\<close>

fun call_defn :: "call \<Rightarrow> defn" where
  "call_defn (AddConstant name v) = constant_defn name v"
| "call_defn (AddUnary def) = unary_defn def"
| "call_defn (AddBinary def) = binary_defn def"
| "call_defn (AddFunction def) = function_defn def"

text \<open>A definition object that passes every check of \<open>add\<close>.\<close>

definition callable_defn :: "defn \<Rightarrow> bool" where
  "callable_defn d = (d_args d \<noteq> None \<and> d_amax d \<noteq> None \<and> d_emit d \<noteq> None \<and> d_eval d \<noteq> None)"

definition valid_defn :: "defn \<Rightarrow> bool" where
  "valid_defn d =
    (if d_type d = ''Constant'' then d_value d \<noteq> None
     else if d_type d = ''Operator'' then d_prec d \<noteq> None \<and> d_rtl d \<noteq> None \<and> callable_defn d
     else d_type d = ''Function'' \<and> callable_defn d)"

text \<open>The first definition of a list with a given name.\<close>

fun find_defn :: "defn list \<Rightarrow> string \<Rightarrow> defn option" where
  "find_defn [] n = None"
| "find_defn (d # ds) n = (if d_name d = n then Some d else find_defn ds n)"

lemma invoke_add: "invoke c this = add (call_defn c) this"
  by (cases c) (simp_all add: addConstant_def addUnary_def addBinary_def addFunction_def)

lemma add_valid:
  assumes "valid_defn d" and "\<not> frozen e" and "\<not> sealed e" and "lang e (d_name d) = None"
  shows "\<exists>e'. add d e = Inr e' \<and> lang e' = (lang e)(d_name d \<mapsto> d) \<and> \<not> frozen e' \<and> \<not> sealed e'"
  using assms
  by (auto simp: add_def add_callable_def valid_defn_def callable_defn_def split: if_splits)

lemma chain_valid:
  assumes "list_all valid_defn (map call_defn cs)"
    and "distinct (map (\<lambda>c. d_name (call_defn c)) cs)"
    and "\<forall>c \<in> set cs. lang e (d_name (call_defn c)) = None"
    and "\<not> frozen e" and "\<not> sealed e"
  shows "\<exists>e'. chain cs e = Inr e' \<and> \<not> frozen e' \<and> \<not> sealed e' \<and>
           lang e' = (\<lambda>n. case find_defn (map call_defn cs) n of Some d \<Rightarrow> Some d | None \<Rightarrow> lang e n)"
  using assms
proof (induction cs arbitrary: e)
  case Nil
  then show ?case by simp
next
  case (Cons c cs)
  from Cons.prems obtain e1 where e1: "add (call_defn c) e = Inr e1"
    "lang e1 = (lang e)(d_name (call_defn c) \<mapsto> call_defn c)" "\<not> frozen e1" "\<not> sealed e1"
    using add_valid [of "call_defn c" e] by auto
  have "\<forall>c' \<in> set cs. lang e1 (d_name (call_defn c')) = None"
    using Cons.prems e1(2) by (auto simp: image_iff)
  with Cons.IH [of e1] Cons.prems e1 obtain e' where e': "chain cs e1 = Inr e'"
    "\<not> frozen e'" "\<not> sealed e'"
    "lang e' = (\<lambda>n. case find_defn (map call_defn cs) n of Some d \<Rightarrow> Some d | None \<Rightarrow> lang e1 n)"
    by auto
  have "find_defn (map call_defn cs) (d_name (call_defn c)) = None"
    using Cons.prems(2) by (induction cs) auto
  then have "lang e' = (\<lambda>n. case find_defn (map call_defn (c # cs)) n of Some d \<Rightarrow> Some d | None \<Rightarrow> lang e n)"
    using e'(4) e1(2) by (auto simp: fun_eq_iff split: option.splits)
  with e1(1) e'(1,2,3) show ?case
    by (simp add: invoke_add and_then_def)
qed

lemma builder_sel:
  "b_name (un_op nm p r ev em) = nm" "b_prec (un_op nm p r ev em) = Some (Fin p)"
  "b_rtl (un_op nm p r ev em) = r" "b_safe (un_op nm p r ev em) = True"
  "b_eval (un_op nm p r ev em) = Some ev" "b_emit (un_op nm p r ev em) = em"
  "b_args (un_op nm p r ev em) = None" "b_amax (un_op nm p r ev em) = None"
  "b_name (fn_def nm a m ev em) = nm" "b_prec (fn_def nm a m ev em) = None"
  "b_rtl (fn_def nm a m ev em) = False" "b_safe (fn_def nm a m ev em) = True"
  "b_eval (fn_def nm a m ev em) = Some ev" "b_emit (fn_def nm a m ev em) = em"
  "b_args (fn_def nm a m ev em) = Some a" "b_amax (fn_def nm a m ev em) = Some m"
  by (simp_all add: un_op_def fn_def_def)

lemma defn_sel:
  "d_type (constant_defn n v) = ''Constant''" "d_name (constant_defn n v) = n"
  "d_value (constant_defn n v) = v" "d_safe (constant_defn n v) = False"
  "d_prec (constant_defn n v) = None" "d_rtl (constant_defn n v) = None"
  "d_args (constant_defn n v) = None" "d_amax (constant_defn n v) = None"
  "d_eval (constant_defn n v) = None" "d_emit (constant_defn n v) = None"
  "d_type (unary_defn b) = ''Operator''" "d_name (unary_defn b) = ''unary'' @ b_name b"
  "d_value (unary_defn b) = None" "d_safe (unary_defn b) = b_safe b"
  "d_prec (unary_defn b) = Some (num_or (b_prec b) (Fin 0))" "d_rtl (unary_defn b) = Some (b_rtl b)"
  "d_args (unary_defn b) = Some (Fin 1)" "d_amax (unary_defn b) = Some (Fin 1)"
  "d_eval (unary_defn b) = b_eval b"
  "d_emit (unary_defn b) = Some (str_or (b_emit b) (''$'' @ accessProp (b_name b) @ ''(@1)''))"
  "d_type (binary_defn b) = ''Operator''" "d_name (binary_defn b) = b_name b"
  "d_value (binary_defn b) = None" "d_safe (binary_defn b) = b_safe b"
  "d_prec (binary_defn b) = Some (num_or (b_prec b) (Fin 0))" "d_rtl (binary_defn b) = Some (b_rtl b)"
  "d_args (binary_defn b) = Some (Fin 2)" "d_amax (binary_defn b) = Some (Fin 2)"
  "d_eval (binary_defn b) = b_eval b"
  "d_emit (binary_defn b) = Some (str_or (b_emit b) (''$'' @ accessProp (b_name b) @ ''(@1, @2)''))"
  "d_type (function_defn b) = ''Function''" "d_name (function_defn b) = b_name b"
  "d_value (function_defn b) = None" "d_safe (function_defn b) = b_safe b"
  "d_prec (function_defn b) = Some (Fin 0)" "d_rtl (function_defn b) = Some False"
  "d_args (function_defn b) = b_args b"
  "d_amax (function_defn b) = (case b_amax b of Some n \<Rightarrow> Some n | None \<Rightarrow> b_args b)"
  "d_eval (function_defn b) = b_eval b"
  "d_emit (function_defn b) = Some (str_or (b_emit b) (''$'' @ accessProp (b_name b) @ ''(@args)''))"
  by (simp_all add: constant_defn_def unary_defn_def binary_defn_def function_defn_def)

lemma xex_lang:
  "\<exists>e. xex M = Inr e \<and> \<not> frozen e \<and> \<not> sealed e \<and>
       lang e = find_defn (map call_defn (xex_calls M))"
proof -
  have 1: "list_all valid_defn (map call_defn (xex_calls M))"
    by (simp add: xex_calls_def valid_defn_def callable_defn_def builder_sel defn_sel)
  have 2: "distinct (map (\<lambda>c. d_name (call_defn c)) (xex_calls M))"
    by (simp add: xex_calls_def builder_sel defn_sel)
  have 3: "\<forall>c \<in> set (xex_calls M). lang new_Environment (d_name (call_defn c)) = None"
    by (simp add: new_Environment_def)
  have 4: "\<not> frozen new_Environment" "\<not> sealed new_Environment"
    by (simp_all add: new_Environment_def)
  from chain_valid [OF 1 2 3 4] obtain e' where e': "chain (xex_calls M) new_Environment = Inr e'"
    "\<not> frozen e'" "\<not> sealed e'"
    "lang e' = (\<lambda>n. case find_defn (map call_defn (xex_calls M)) n of Some d \<Rightarrow> Some d
                        | None \<Rightarrow> lang new_Environment n)"
    by blast
  have "lang e' = find_defn (map call_defn (xex_calls M))"
    unfolding e'(4) by (rule ext) (simp add: new_Environment_def split: option.splits)
  with e'(1,2,3) show ?thesis by (simp add: xex_def)
qed

section \<open>Tokenizer\<close>

datatype category = kCharNone | kCharSpace | kCharAlpha | kCharDigit | kCharPunct

text \<open>
  The lookup table \<open>Category\<close> over character codes; a code outside the table is
  \<open>kCharNone\<close>.  The input is a string of 8-bit characters here.
\<close>

definition Category :: "nat \<Rightarrow> category" where
  "Category c =
    (if 9 \<le> c \<and> c \<le> 13 then kCharSpace
     else if c = 32 then kCharSpace
     else if 33 \<le> c \<and> c \<le> 47 then kCharPunct
     else if 48 \<le> c \<and> c \<le> 57 then kCharDigit
     else if 58 \<le> c \<and> c \<le> 64 then kCharPunct
     else if 65 \<le> c \<and> c \<le> 90 then kCharAlpha
     else if 91 \<le> c \<and> c \<le> 94 then kCharPunct
     else if c = 95 then kCharAlpha
     else if c = 96 then kCharPunct
     else if 97 \<le> c \<and> c \<le> 122 then kCharAlpha
     else if 123 \<le> c \<and> c \<le> 126 then kCharPunct
     else kCharNone)"

datatype token_type = kTokenNone | kTokenPunct | kTokenIdent | kTokenValue

record token =
  t_type :: token_type
  t_position :: int
  t_data :: string
  t_value :: "num option"

definition newToken :: "token_type \<Rightarrow> int \<Rightarrow> string \<Rightarrow> num option \<Rightarrow> token" where
  "newToken ty pos dat v = \<lparr> t_type = ty, t_position = pos, t_data = dat, t_value = v \<rparr>"

definition NoToken :: token where
  "NoToken = newToken kTokenNone (- 1) ''<end>'' None"

definition kMaxOperatorLen :: nat where
  "kMaxOperatorLen = 4"

subsection \<open>The numeric literal\<close>

text \<open>
  \<open>reValue\<close> is \<open>(?:(?:\d*\.\d+|\d+)(?:[E|e][+|-]?\d+)?)\<close>.  Both character classes
  contain the bar.  \<open>match_mantissa\<close> and \<open>match_exponent\<close> give the text matched at
  the head of a string and what follows it; every quantifier is greedy, and no
  shorter choice of one lets a later part match.
\<close>

definition match_mantissa :: "string \<Rightarrow> (string \<times> string) option" where
  "match_mantissa s =
    (let d1 = takeWhile is_digit_char s; r1 = dropWhile is_digit_char s in
     case r1 of
       c # r2 \<Rightarrow>
         if c = CHR ''.'' \<and> takeWhile is_digit_char r2 \<noteq> [] then
           Some (d1 @ [c] @ takeWhile is_digit_char r2, dropWhile is_digit_char r2)
         else if d1 \<noteq> [] then Some (d1, r1) else None
     | [] \<Rightarrow> if d1 \<noteq> [] then Some (d1, r1) else None)"

definition match_exponent :: "string \<Rightarrow> string" where
  "match_exponent s =
    (case s of
       c # r \<Rightarrow>
         if c = CHR ''E'' \<or> c = CHR ''|'' \<or> c = CHR ''e'' then
           (case r of
              g # r' \<Rightarrow>
                if (g = CHR ''+'' \<or> g = CHR ''|'' \<or> g = CHR ''-'') \<and> takeWhile is_digit_char r' \<noteq> []
                then c # g # takeWhile is_digit_char r'
                else if takeWhile is_digit_char r \<noteq> [] then c # takeWhile is_digit_char r
                else []
            | [] \<Rightarrow> [])
         else []
     | [] \<Rightarrow> [])"

definition match_value :: "string \<Rightarrow> string option" where
  "match_value s =
    (case match_mantissa s of
       None \<Rightarrow> None
     | Some (m, r) \<Rightarrow> Some (m @ match_exponent r))"

text \<open>
  \<open>reValue.exec(input)\<close> with \<open>lastIndex\<close> at the head of the string: the regular
  expression is global and not anchored, so the search moves on to later positions;
  the result is the matched text, or \<open>None\<close> for \<open>null\<close>.
\<close>

fun reValue_exec :: "string \<Rightarrow> string option" where
  "reValue_exec [] = None"
| "reValue_exec (c # cs) =
     (case match_value (c # cs) of Some m \<Rightarrow> Some m | None \<Rightarrow> reValue_exec cs)"

text \<open>
  \<open>parseFloat\<close> reads the longest prefix that is a decimal literal: the mantissa,
  and an exponent only when it is written with \<open>e\<close> or \<open>E\<close>, an optional \<open>+\<close> or
  \<open>-\<close> and digits.  The value is the exact decimal value.
\<close>

definition digit_val :: "char \<Rightarrow> nat" where
  "digit_val c = charCode c - 48"

definition digits_val :: "string \<Rightarrow> nat" where
  "digits_val ds = foldl (\<lambda>n c. 10 * n + digit_val c) 0 ds"

definition mantissa_val :: "string \<Rightarrow> real" where
  "mantissa_val m =
    (let ip = takeWhile is_digit_char m; fp = drop (Suc (length ip)) m in
     real (digits_val ip) + real (digits_val fp) / 10 ^ length fp)"

definition exponent_val :: "string \<Rightarrow> real" where
  "exponent_val x =
    (case x of
       c # g # ds \<Rightarrow>
         if c = CHR ''|'' then 1
         else if g = CHR ''-'' then 1 / 10 ^ digits_val ds
         else if g = CHR ''+'' then 10 ^ digits_val ds
         else if g = CHR ''|'' then 1
         else 10 ^ digits_val (g # ds)
     | _ \<Rightarrow> 1)"

definition parseFloat :: "string \<Rightarrow> num" where
  "parseFloat dat =
    (case match_mantissa dat of
       None \<Rightarrow> NaN
     | Some (m, r) \<Rightarrow> Fin (mantissa_val m * exponent_val (match_exponent r)))"

subsection \<open>The loop\<close>

text \<open>The length of the run of characters from the head that satisfy \<open>P\<close>.\<close>

definition run_length :: "(char \<Rightarrow> bool) \<Rightarrow> string \<Rightarrow> nat" where
  "run_length P s = length (takeWhile P s)"

text \<open>
  The inner \<open>for\<close> loop of the punctuation branch: the longest prefix of at most
  \<open>j\<close> characters that the environment knows, or one character.
\<close>

fun operator_length :: "Environment \<Rightarrow> string \<Rightarrow> nat \<Rightarrow> nat" where
  "operator_length env s 0 = 0"
| "operator_length env s (Suc j) =
     (if get env (take (Suc j) s) \<noteq> None \<or> Suc j = 1 then Suc j else operator_length env s j)"

text \<open>The \<open>do ... while (start < i)\<close> loop over a run of punctuation.\<close>

function punct_tokens :: "Environment \<Rightarrow> nat \<Rightarrow> string \<Rightarrow> token list" where
  "punct_tokens env start run =
     (let j = operator_length env run (min (length run) kMaxOperatorLen) in
      newToken kTokenPunct (int start) (take j run) None #
        (if start + j < start + length run then punct_tokens env (start + j) (drop j run) else []))"
  by pat_completeness auto

lemma operator_length_pos: "0 < j \<Longrightarrow> 0 < operator_length env s j"
  by (induction j) auto

termination punct_tokens
proof (relation "measure (\<lambda>(env, start, run). length run)")
  fix env :: Environment and start :: nat and run :: string and j
  assume j: "j = operator_length env run (min (length run) kMaxOperatorLen)"
    and lt: "start + j < start + length run"
  from lt have "0 < min (length run) kMaxOperatorLen"
    by (cases run) (simp_all add: kMaxOperatorLen_def)
  then have "0 < j" unfolding j by (rule operator_length_pos)
  with lt show "((env, start + j, drop j run), (env, start, run)) \<in> measure (\<lambda>(env, start, run). length run)"
    by simp
qed simp

lemma reValue_exec_nonempty: "reValue_exec s = Some m \<Longrightarrow> m \<noteq> []"
proof (induction s)
  case Nil then show ?case by simp
next
  case (Cons c cs)
  show ?case
  proof (cases "match_value (c # cs)")
    case None
    with Cons show ?thesis by simp
  next
    case (Some a)
    with Cons.prems have "a = m" by simp
    with Some show ?thesis
      by (auto simp: match_value_def match_mantissa_def Let_def split: option.splits list.splits if_splits)
  qed
qed

lemma reValue_exec_dot:
  assumes "reValue_exec (CHR ''.'' # d # r) = Some m" and "is_digit_char d"
  shows "2 \<le> length m"
proof -
  have nd: "\<not> is_digit_char CHR ''.''"
    by (simp add: is_digit_char_def charCode_def)
  with assms have "CHR ''.'' # d # takeWhile is_digit_char r @ match_exponent (dropWhile is_digit_char r) = m"
    by (simp add: match_value_def match_mantissa_def)
  then have "length m = 2 + length (takeWhile is_digit_char r @ match_exponent (dropWhile is_digit_char r))"
    by (metis add_2_eq_Suc length_Cons)
  then show ?thesis by simp
qed

lemma Category_digit: "Category (charCode c) = kCharDigit \<longleftrightarrow> is_digit_char c"
  by (simp add: Category_def is_digit_char_def)

text \<open>The code of a character in hexadecimal, as \<open>c.toString(16)\<close> prints it.\<close>

definition to_hex :: "nat \<Rightarrow> string" where
  "to_hex n = (if n < 16 then [hex_digit n] else [hex_digit (n div 16), hex_digit n])"

definition is_ident_char :: "char \<Rightarrow> bool" where
  "is_ident_char c =
     (Category (charCode c) = kCharAlpha \<or> Category (charCode c) = kCharDigit)"

definition is_punct_char :: "char \<Rightarrow> bool" where
  "is_punct_char c = (Category (charCode c) = kCharPunct)"

text \<open>
  The decimal-point rule of the digit branch: the last token is \<open>.\<close> and the
  character before the digit is a dot.
\<close>

definition dot_before :: "string \<Rightarrow> nat \<Rightarrow> token list \<Rightarrow> bool" where
  "dot_before input i tokens =
     (tokens \<noteq> [] \<and> t_data (last tokens) = ''.'' \<and> 0 < i \<and> input ! (i - 1) = CHR ''.'')"

text \<open>
  The digit branch: the new index and the new token array, or the TypeError of
  reading \<open>[0]\<close> of \<open>null\<close>.
\<close>

definition digit_branch :: "string \<Rightarrow> nat \<Rightarrow> token list \<Rightarrow> error + nat \<times> token list" where
  "digit_branch input i tokens =
    (let tokens1 = (if dot_before input i tokens then butlast tokens else tokens);
         i1 = (if dot_before input i tokens then i - 1 else i)
     in case reValue_exec (drop i1 input) of
          None \<Rightarrow> Inl TypeError
        | Some dat \<Rightarrow>
            Inr (i1 + length dat,
                 tokens1 @ [newToken kTokenValue (int i1) dat (Some (parseFloat dat))]))"

lemma digit_branch_advances:
  assumes "i < length input" and "Category (charCode (input ! i)) = kCharDigit"
    and "digit_branch input i tokens = Inr (i', tokens')"
  shows "i < i'"
proof (cases "dot_before input i tokens")
  case False
  with assms(3) reValue_exec_nonempty [of "drop i input"] show ?thesis
    by (auto simp: digit_branch_def split: option.splits)
next
  case True
  then have i: "0 < i" "input ! (i - 1) = CHR ''.''"
    by (simp_all add: dot_before_def)
  with assms(1) have "drop (i - 1) input = CHR ''.'' # input ! i # drop (Suc i) input"
    using Cons_nth_drop_Suc [of "i - 1" input] Cons_nth_drop_Suc [of i input] by simp
  then have d: "drop (i - 1) input = CHR ''.'' # input ! i # drop (Suc i) input" .
  have dg: "is_digit_char (input ! i)"
    using assms(2) by (simp add: Category_digit)
  from assms(3) True obtain dat where dat: "reValue_exec (drop (i - 1) input) = Some dat"
    "i' = i - 1 + length dat"
    by (auto simp: digit_branch_def Let_def split: option.splits)
  from dat(1) have "2 \<le> length dat"
    unfolding d using dg by (rule reValue_exec_dot)
  with dat(2) i(1) show ?thesis by simp
qed

function tokenize_loop :: "Environment \<Rightarrow> string \<Rightarrow> nat \<Rightarrow> token list \<Rightarrow> error + token list" where
  "tokenize_loop env input i tokens =
    (if i < length input then
       (if Category (charCode (input ! i)) = kCharSpace then
          tokenize_loop env input (i + 1) tokens
        else if Category (charCode (input ! i)) = kCharDigit then
          (case digit_branch input i tokens of
             Inl e \<Rightarrow> Inl e
           | Inr (i', tokens') \<Rightarrow> tokenize_loop env input i' tokens')
        else if Category (charCode (input ! i)) = kCharAlpha then
          tokenize_loop env input
            (i + Suc (run_length is_ident_char (drop (Suc i) input)))
            (tokens @ [newToken kTokenIdent (int i)
               (take (Suc (run_length is_ident_char (drop (Suc i) input))) (drop i input)) None])
        else if Category (charCode (input ! i)) = kCharPunct then
          tokenize_loop env input
            (i + Suc (run_length is_punct_char (drop (Suc i) input)))
            (tokens @ punct_tokens env i
               (take (Suc (run_length is_punct_char (drop (Suc i) input))) (drop i input)))
        else Inl (ExpressionError
               (''Unrecognized character '' @ [CHR 0x27] @ ''0x'' @ to_hex (charCode (input ! i)) @ [CHR 0x27])
               (int i)))
     else Inr tokens)"
  by pat_completeness auto

termination tokenize_loop
proof (relation "measure (\<lambda>(env, input, i, tokens). length input - i)")
  fix env :: Environment and input :: string and i :: nat and tokens x2 x y
  assume "i < length input" "Category (charCode (input ! i)) = kCharDigit"
    "digit_branch input i tokens = Inr x2" "(x, y) = x2"
  then show "((env, input, x, y), (env, input, i, tokens))
      \<in> measure (\<lambda>(env, input, i, tokens). length input - i)"
    using digit_branch_advances [of i input tokens x y] by auto
qed auto

definition tokenize :: "Environment \<Rightarrow> string \<Rightarrow> error + token list" where
  "tokenize env input = tokenize_loop env input 0 []"

section \<open>The host\<close>

text \<open>
  What the library takes from the JavaScript engine without this development giving
  it a definition: the inexact \<open>Math\<close> functions (by name), the conversion of a
  number to a string (\<open>String(x)\<close> and the template literals), and the \<open>Function\<close>
  constructor.  \<open>h_Function H src fn\<close> is the call
  \<open>Function("$", src).apply(null, [fn])\<close>: the function that the source text
  returns when \<open>$\<close> is the table \<open>fn\<close>, or the message of the exception.
\<close>

record 'f host =
  h_Math :: "string \<Rightarrow> num list \<Rightarrow> num"
  h_String :: "num \<Rightarrow> string"
  h_Function :: "string \<Rightarrow> (string \<rightharpoonup> (num list \<Rightarrow> num)) \<Rightarrow> string + 'f"

section \<open>Nodes and the store\<close>

text \<open>
  A node of the tree is a number or an object; objects live in a store and are
  referred to by their address, as the parser and the folder update them in place.
  A slot holds \<open>undefined\<close>, \<open>null\<close>, a number or a reference.  The \<open>args\<close> array of
  a call is kept inside its node: no other object refers to it.
\<close>

datatype val = VUndefined | VNull | VNum num | VRef nat

datatype obj =
  Var string
| Unary string defn val
| Binary string defn val val
| Call string defn "val list"

type_synonym store = "obj list"

definition alloc :: "obj \<Rightarrow> store \<Rightarrow> val \<times> store" where
  "alloc ob h = (VRef (length h), h @ [ob])"

definition isValue :: "val \<Rightarrow> bool" where
  "isValue node = (case node of VNum x \<Rightarrow> True | _ \<Rightarrow> False)"

fun num_of :: "val \<Rightarrow> num" where
  "num_of (VNum x) = x"
| "num_of _ = NaN"

text \<open>Reading and writing the properties of the object a reference points to.\<close>

definition info_at :: "store \<Rightarrow> val \<Rightarrow> defn option" where
  "info_at h node =
    (case node of
       VRef a \<Rightarrow>
         if a < length h then
           (case h ! a of Var nm \<Rightarrow> None | Unary nm info v \<Rightarrow> Some info
            | Binary nm info l r \<Rightarrow> Some info | Call nm info as \<Rightarrow> Some info)
         else None
     | _ \<Rightarrow> None)"

definition right_at :: "store \<Rightarrow> val \<Rightarrow> val" where
  "right_at h node =
    (case node of
       VRef a \<Rightarrow> if a < length h then (case h ! a of Binary nm info l r \<Rightarrow> r | _ \<Rightarrow> VUndefined)
                else VUndefined
     | _ \<Rightarrow> VUndefined)"

definition set_value :: "val \<Rightarrow> val \<Rightarrow> store \<Rightarrow> store" where
  "set_value node v h =
    (case node of
       VRef a \<Rightarrow> if a < length h then (case h ! a of Unary nm info w \<Rightarrow> h[a := Unary nm info v] | _ \<Rightarrow> h)
                else h
     | _ \<Rightarrow> h)"

definition set_left :: "val \<Rightarrow> val \<Rightarrow> store \<Rightarrow> store" where
  "set_left node v h =
    (case node of
       VRef a \<Rightarrow> if a < length h then (case h ! a of Binary nm info l r \<Rightarrow> h[a := Binary nm info v r] | _ \<Rightarrow> h)
                else h
     | _ \<Rightarrow> h)"

definition set_right :: "val \<Rightarrow> val \<Rightarrow> store \<Rightarrow> store" where
  "set_right node v h =
    (case node of
       VRef a \<Rightarrow> if a < length h then (case h ! a of Binary nm info l r \<Rightarrow> h[a := Binary nm info l v] | _ \<Rightarrow> h)
                else h
     | _ \<Rightarrow> h)"

section \<open>Parser\<close>

record options =
  noFolding :: bool
  varsWhitelist :: "string list option"

text \<open>
  What stays fixed during a parse (the environment, the options, the token array and
  the host's number formatting), and what changes: the token index, the table of the
  variable nodes and the store.
\<close>

record parser =
  p_env :: Environment
  p_options :: options
  p_tokens :: "token list"
  p_String :: "num \<Rightarrow> string"

record pstate =
  tIndex :: nat
  vars :: "string \<rightharpoonup> val"
  heap :: store

definition peek :: "parser \<Rightarrow> pstate \<Rightarrow> token" where
  "peek P st = (if tIndex st < length (p_tokens P) then p_tokens P ! tIndex st else NoToken)"

definition skip :: "pstate \<Rightarrow> pstate" where
  "skip st = st \<lparr> tIndex := tIndex st + 1 \<rparr>"

definition next_token :: "parser \<Rightarrow> pstate \<Rightarrow> token \<times> pstate" where
  "next_token P st =
     (if tIndex st < length (p_tokens P) then (p_tokens P ! tIndex st, skip st) else (NoToken, st))"

definition throwTokenError :: "token \<Rightarrow> error + 'a" where
  "throwTokenError token =
     Inl (ExpressionError (''Unexpected token '' @ [CHR 0x27] @ t_data token @ [CHR 0x27]) (t_position token))"

text \<open>
  Comparison of two \<open>prec\<close> properties, either of which may be \<open>undefined\<close>:
  \<open>a > b\<close> and \<open>a === b\<close>.
\<close>

definition prec_gt :: "num option \<Rightarrow> num option \<Rightarrow> bool" where
  "prec_gt a b = (case (a, b) of (Some x, Some y) \<Rightarrow> js_lt y x | _ \<Rightarrow> False)"

definition prec_seq :: "num option \<Rightarrow> num option \<Rightarrow> bool" where
  "prec_seq a b =
     (case (a, b) of (Some x, Some y) \<Rightarrow> js_seq x y | (None, None) \<Rightarrow> True | _ \<Rightarrow> False)"

definition rightAssociate :: "defn option \<Rightarrow> num option \<Rightarrow> bool" where
  "rightAssociate info bPrec =
     (case info of
        None \<Rightarrow> False
      | Some i \<Rightarrow> prec_gt (d_prec i) bPrec \<or> (prec_seq (d_prec i) bPrec \<and> d_rtl i = Some True))"

text \<open>
  The loop over the unary operators in front of a value.  \<open>rest\<close> are the tokens
  after \<open>token\<close>; the result gives the token the loop ends on, the number of tokens
  it took with \<open>next()\<close>, the store, and the first and the last node of the chain.
\<close>

fun unary_loop ::
  "Environment \<Rightarrow> token \<Rightarrow> token list \<Rightarrow> nat \<Rightarrow> store \<Rightarrow> val \<Rightarrow> val \<Rightarrow> token \<times> nat \<times> store \<times> val \<times> val"
where
  "unary_loop env token [] k h unaryFirst unaryLast =
     (case get env (''unary'' @ t_data token) of
        None \<Rightarrow> (token, k, h, unaryFirst, unaryLast)
      | Some info \<Rightarrow>
          (case alloc (Unary (''unary'' @ t_data token) info VNull) h of
             (node, h1) \<Rightarrow>
               (NoToken, k,
                (if unaryLast \<noteq> VNull then set_value unaryLast node h1 else h1),
                (if unaryLast \<noteq> VNull then unaryFirst else node), node)))"
| "unary_loop env token (t # rest) k h unaryFirst unaryLast =
     (case get env (''unary'' @ t_data token) of
        None \<Rightarrow> (token, k, h, unaryFirst, unaryLast)
      | Some info \<Rightarrow>
          (case alloc (Unary (''unary'' @ t_data token) info VNull) h of
             (node, h1) \<Rightarrow>
               if t_type t = kTokenPunct then
                 unary_loop env t rest (Suc k)
                   (if unaryLast \<noteq> VNull then set_value unaryLast node h1 else h1)
                   (if unaryLast \<noteq> VNull then unaryFirst else node) node
               else
                 (t, Suc k,
                  (if unaryLast \<noteq> VNull then set_value unaryLast node h1 else h1),
                  (if unaryLast \<noteq> VNull then unaryFirst else node), node)))"

text \<open>
  The \<open>while (stack.length)\<close> loop that pops the stack; the head of the list is the
  top of the stack.
\<close>

fun pop_loop :: "store \<Rightarrow> num option \<Rightarrow> val \<Rightarrow> val list \<Rightarrow> val \<times> val list" where
  "pop_loop h bPrec aNode [] = (aNode, [])"
| "pop_loop h bPrec aNode (nd # stack) =
     (if rightAssociate (info_at h aNode) bPrec then (aNode, nd # stack)
      else pop_loop h bPrec nd stack)"

text \<open>
  What the loop of \<open>parseExpression\<close> does with a binary operator: the new stack and
  the new store.
\<close>

definition push_binary :: "val \<Rightarrow> val \<Rightarrow> val list \<Rightarrow> store \<Rightarrow> val list \<times> store" where
  "push_binary bNode v stack h =
    (case stack of
       [] \<Rightarrow> ([bNode], set_left bNode v h)
     | aNode # stack1 \<Rightarrow>
         if prec_gt (case info_at h aNode of None \<Rightarrow> None | Some i \<Rightarrow> d_prec i)
                    (case info_at h bNode of None \<Rightarrow> None | Some i \<Rightarrow> d_prec i)
         then (bNode # aNode # stack1, set_left bNode v (set_right aNode bNode h))
         else
           (let h1 = set_right aNode v h;
                bPrec = (case info_at h bNode of None \<Rightarrow> None | Some i \<Rightarrow> d_prec i)
            in case pop_loop h1 bPrec aNode stack1 of
                 (aNode', stack2) \<Rightarrow>
                   if stack2 = [] \<and> \<not> rightAssociate (info_at h1 aNode') bPrec
                   then ([bNode], set_left bNode aNode' h1)
                   else (bNode # aNode' # stack2,
                         set_left bNode (right_at h1 aNode') (set_right aNode' bNode h1))))"

definition arity_message :: "parser \<Rightarrow> string \<Rightarrow> defn \<Rightarrow> nat \<Rightarrow> string" where
  "arity_message P name info n =
    (let a = (case d_args info of None \<Rightarrow> ''undefined'' | Some x \<Rightarrow> p_String P x);
         m = (case d_amax info of None \<Rightarrow> ''undefined'' | Some x \<Rightarrow> p_String P x)
     in if prec_seq (d_args info) (d_amax info) then
          ''Function '' @ [CHR 0x27] @ name @ [CHR 0x27] @ '' accepts '' @ a @ '' argument(s), '' @
            p_String P (Fin (real n)) @ '' provided''
        else
          ''Function '' @ [CHR 0x27] @ name @ [CHR 0x27] @ '' accepts '' @ a @ '' to '' @ m @
            '' argument(s), '' @ p_String P (Fin (real n)) @ '' provided'')"

text \<open>The check of the argument count at the end of \<open>parseCall\<close>.\<close>

definition bad_arity :: "defn \<Rightarrow> nat \<Rightarrow> bool" where
  "bad_arity info n =
     (prec_gt (d_args info) (Some (Fin (real n))) \<or> prec_gt (Some (Fin (real n))) (d_amax info))"

text \<open>
  A variable reference: the whitelist check and the node of the name, made on the
  first use of the name and shared by the later ones.
\<close>

definition variable_node :: "parser \<Rightarrow> token \<Rightarrow> pstate \<Rightarrow> error + val \<times> pstate" where
  "variable_node P token st =
    (if (case varsWhitelist (p_options P) of None \<Rightarrow> False | Some wl \<Rightarrow> t_data token \<notin> set wl) then
       Inl (ExpressionError (''Variable '' @ t_data token @ '' is not on the whitelist'') (t_position token))
     else
       (case vars st (t_data token) of
          Some node \<Rightarrow> Inr (node, st)
        | None \<Rightarrow>
            (case alloc (Var (t_data token)) (heap st) of
               (node, h1) \<Rightarrow> Inr (node, st \<lparr> vars := (vars st)(t_data token \<mapsto> node), heap := h1 \<rparr>))))"

text \<open>
  The head of a turn of the loop of \<open>parseExpression\<close>, up to the point where the
  value is known or a nested construct has to be parsed.
\<close>

datatype primary = PValue val | PCall token defn | PGroup

definition parse_start :: "parser \<Rightarrow> pstate \<Rightarrow> error + primary \<times> val \<times> val \<times> pstate" where
  "parse_start P st =
    (case next_token P st of
       (token0, st0) \<Rightarrow>
        (case (if t_type token0 = kTokenPunct
               then unary_loop (p_env P) token0 (drop (tIndex st0) (p_tokens P)) 0 (heap st0) VNull VNull
               else (token0, 0, heap st0, VNull, VNull)) of
           (token, k, h1, unaryFirst, unaryLast) \<Rightarrow>
            (let st1 = st0 \<lparr> tIndex := tIndex st0 + k, heap := h1 \<rparr> in
             if t_type token = kTokenValue then
               Inr (PValue (case t_value token of None \<Rightarrow> VNull | Some x \<Rightarrow> VNum x),
                    unaryFirst, unaryLast, st1)
             else if t_type token = kTokenIdent then
               (if t_data (peek P st1) = ''('' then
                  (case get (p_env P) (t_data token) of
                     None \<Rightarrow>
                       Inl (ExpressionError (''Function '' @ t_data token @ '' not defined'')
                              (t_position token))
                   | Some info \<Rightarrow>
                       if d_type info \<noteq> ''Function'' then
                         Inl (ExpressionError
                                (''Variable '' @ t_data token @ '' cannot be used as function'')
                                (t_position token))
                       else Inr (PCall token info, unaryFirst, unaryLast, st1))
                else if (case get (p_env P) (t_data token) of
                           None \<Rightarrow> False | Some info \<Rightarrow> d_type info = ''Function'') then
                  Inl (ExpressionError
                         (''Function '' @ t_data token @ '' cannot be used as variable'')
                         (t_position token))
                else
                  (case get (p_env P) (t_data token) of
                     Some info \<Rightarrow>
                       if d_type info = ''Constant'' then
                         Inr (PValue (case d_value info of None \<Rightarrow> VUndefined | Some x \<Rightarrow> VNum x),
                              unaryFirst, unaryLast, st1)
                       else and_then (variable_node P token st1)
                              (\<lambda>(node, st2). Inr (PValue node, unaryFirst, unaryLast, st2))
                   | None \<Rightarrow>
                       and_then (variable_node P token st1)
                         (\<lambda>(node, st2). Inr (PValue node, unaryFirst, unaryLast, st2))))
             else if t_data token = ''('' then Inr (PGroup, unaryFirst, unaryLast, st1)
             else throwTokenError token)))"

text \<open>The token after a nested expression in parentheses must be the closing one.\<close>

definition close_group :: "parser \<Rightarrow> val \<times> pstate \<Rightarrow> error + val \<times> pstate" where
  "close_group P r =
    (case r of
       (v, st) \<Rightarrow>
         (case next_token P st of
            (token, st1) \<Rightarrow> if t_data token \<noteq> '')'' then throwTokenError token else Inr (v, st1)))"

text \<open>
  The tail of a turn, once the value is known: the unary chain takes the value; a
  binary operator goes onto the stack and the loop repeats; anything else ends the
  loop, and the expression is the value or the bottom of the stack.
\<close>

datatype turn = Continue "val list" pstate | Finish val pstate

definition after_value :: "parser \<Rightarrow> val list \<Rightarrow> val \<Rightarrow> val \<Rightarrow> val \<times> pstate \<Rightarrow> error + turn" where
  "after_value P stack unaryFirst unaryLast r =
    (case r of
       (v0, st) \<Rightarrow>
        (let v = (if unaryFirst \<noteq> VNull then unaryFirst else v0);
             h = (if unaryFirst \<noteq> VNull then set_value unaryLast v0 (heap st) else heap st);
             token = peek P st
         in case (if t_type token = kTokenPunct then get (p_env P) (t_data token) else None) of
              Some info \<Rightarrow>
                (case alloc (Binary (t_data token) info VNull VNull) h of
                   (bNode, h1) \<Rightarrow>
                     (case push_binary bNode v stack h1 of
                        (stack1, h2) \<Rightarrow> Inr (Continue stack1 (skip (st \<lparr> heap := h2 \<rparr>)))))
            | None \<Rightarrow>
                if v = VNull then throwExpressionError ''Invalid state''
                else if stack = [] then Inr (Finish v (st \<lparr> heap := h \<rparr>))
                else Inr (Finish (last stack) (st \<lparr> heap := set_right (hd stack) v h \<rparr>))))"

text \<open>The end of \<open>parseCall\<close>: the closing parenthesis, the argument count, the node.\<close>

definition finish_call :: "parser \<Rightarrow> token \<Rightarrow> defn \<Rightarrow> val list \<times> pstate \<Rightarrow> error + val \<times> pstate" where
  "finish_call P ftoken info r =
    (case r of
       (args, st) \<Rightarrow>
         if bad_arity info (length args) then
           throwExpressionError (arity_message P (t_data ftoken) info (length args))
         else
           (case alloc (Call (t_data ftoken) info args) (heap st) of
              (node, h1) \<Rightarrow> Inr (node, skip (st \<lparr> heap := h1 \<rparr>))))"

text \<open>
  \<open>parseExpression\<close> and \<open>parseCall\<close>.  The first argument bounds the depth of the
  calls (each turn of a loop is a call here); \<open>None\<close> says the bound was reached.
\<close>

definition bind_result ::
  "(error + 'a) option \<Rightarrow> ('a \<Rightarrow> (error + 'b) option) \<Rightarrow> (error + 'b) option" where
  "bind_result r f = (case r of None \<Rightarrow> None | Some (Inl e) \<Rightarrow> Some (Inl e) | Some (Inr x) \<Rightarrow> f x)"

text \<open>The first token of \<open>parseCall\<close> must be the opening parenthesis.\<close>

definition open_call :: "parser \<Rightarrow> pstate \<Rightarrow> error + pstate" where
  "open_call P st =
    (case next_token P st of
       (token, st1) \<Rightarrow> if t_data token \<noteq> ''('' then throwTokenError token else Inr st1)"

fun expression_loop :: "nat \<Rightarrow> parser \<Rightarrow> val list \<Rightarrow> pstate \<Rightarrow> (error + val \<times> pstate) option"
  and parseCall :: "nat \<Rightarrow> parser \<Rightarrow> token \<times> defn \<Rightarrow> pstate \<Rightarrow> (error + val \<times> pstate) option"
  and call_loop :: "nat \<Rightarrow> parser \<Rightarrow> val list \<Rightarrow> pstate \<Rightarrow> (error + val list \<times> pstate) option"
where
  "expression_loop 0 P stack st = None"
| "expression_loop (Suc n) P stack st =
    bind_result (Some (parse_start P st))
      (\<lambda>(prim, unaryFirst, unaryLast, st1).
         bind_result
           (case prim of
              PValue v \<Rightarrow> Some (Inr (v, st1))
            | PCall ftoken info \<Rightarrow> parseCall n P (ftoken, info) st1
            | PGroup \<Rightarrow> bind_result (expression_loop n P [] st1) (\<lambda>r. Some (close_group P r)))
           (\<lambda>r. bind_result (Some (after_value P stack unaryFirst unaryLast r))
              (\<lambda>t. case t of
                     Finish v st2 \<Rightarrow> Some (Inr (v, st2))
                   | Continue stack1 st2 \<Rightarrow> expression_loop n P stack1 st2)))"
| "parseCall 0 P f st = None"
| "parseCall (Suc n) P f st =
    bind_result (Some (open_call P st))
      (\<lambda>st1. bind_result (call_loop n P [] st1) (\<lambda>r. Some (finish_call P (fst f) (snd f) r)))"
| "call_loop 0 P args st = None"
| "call_loop (Suc n) P args st =
    (if t_data (peek P st) = '')'' then Some (Inr (args, st))
     else if args \<noteq> [] \<and> t_data (peek P st) \<noteq> '','' then Some (throwTokenError (peek P st))
     else bind_result (expression_loop n P [] (if args \<noteq> [] then skip st else st))
            (\<lambda>(v, st1). call_loop n P (args @ [v]) st1))"

text \<open>\<open>parseExpression()\<close> starts the loop with an empty stack.\<close>

definition parseExpression :: "nat \<Rightarrow> parser \<Rightarrow> pstate \<Rightarrow> (error + val \<times> pstate) option" where
  "parseExpression n P st = expression_loop n P [] st"

text \<open>\<open>Parser.parse()\<close>: the root node and the state, for \<open>Environment.exp\<close> to wrap.\<close>

definition parse :: "nat \<Rightarrow> parser \<Rightarrow> pstate \<Rightarrow> (error + val \<times> pstate) option" where
  "parse n P st =
    (if peek P st = NoToken then Some (throwTokenError (peek P st))
     else
       bind_result (parseExpression n P st)
         (\<lambda>(r, st1).
            if peek P st1 \<noteq> NoToken then Some (throwTokenError (peek P st1))
            else Some (Inr (r, st1))))"


section \<open>Expression\<close>

text \<open>
  The children of a node object, in the order the folder and \<open>cloneNode\<close> visit
  them: \<open>value\<close>; \<open>left\<close>, \<open>right\<close>; the elements of \<open>args\<close>.
\<close>

fun slots :: "obj \<Rightarrow> val list" where
  "slots (Var nm) = []"
| "slots (Unary nm info v) = [v]"
| "slots (Binary nm info l r) = [l, r]"
| "slots (Call nm info as) = as"

text \<open>The assignment to the \<open>i\<close>-th child of a node object.\<close>

fun put_slot :: "nat \<Rightarrow> val \<Rightarrow> obj \<Rightarrow> obj" where
  "put_slot i x (Var nm) = Var nm"
| "put_slot i x (Unary nm info v) = (if i = 0 then Unary nm info x else Unary nm info v)"
| "put_slot i x (Binary nm info l r) =
     (if i = 0 then Binary nm info x r else if i = 1 then Binary nm info l x else Binary nm info l r)"
| "put_slot i x (Call nm info as) = Call nm info (as[i := x])"

definition slot_at :: "store \<Rightarrow> nat \<Rightarrow> nat \<Rightarrow> val" where
  "slot_at h a i = (if i < length (slots (h ! a)) then slots (h ! a) ! i else VUndefined)"

definition set_slot :: "nat \<Rightarrow> nat \<Rightarrow> val \<Rightarrow> store \<Rightarrow> store" where
  "set_slot a i x h = h[a := put_slot i x (h ! a)]"

subsection \<open>cloneNode\<close>

text \<open>
  \<open>cloneNode\<close> copies every node object but the variables, children first.  The
  first argument bounds the depth of the recursion.
\<close>

fun cloneNode :: "nat \<Rightarrow> val \<Rightarrow> store \<Rightarrow> (val \<times> store) option"
  and clone_list :: "nat \<Rightarrow> val list \<Rightarrow> store \<Rightarrow> (val list \<times> store) option"
where
  "cloneNode 0 node h = None"
| "cloneNode (Suc n) node h =
    (case node of
       VRef a \<Rightarrow>
         if a < length h then
           (case h ! a of
              Var nm \<Rightarrow> Some (node, h)
            | Unary nm info v \<Rightarrow>
                (case clone_list n [v] h of
                   Some ([v'], h1) \<Rightarrow> Some (alloc (Unary nm info v') h1)
                 | _ \<Rightarrow> None)
            | Binary nm info l r \<Rightarrow>
                (case clone_list n [l, r] h of
                   Some ([l', r'], h1) \<Rightarrow> Some (alloc (Binary nm info l' r') h1)
                 | _ \<Rightarrow> None)
            | Call nm info as \<Rightarrow>
                (case clone_list n as h of
                   Some (as', h1) \<Rightarrow> Some (alloc (Call nm info as') h1)
                 | None \<Rightarrow> None))
         else None
     | _ \<Rightarrow> Some (node, h))"
| "clone_list n [] h = Some ([], h)"
| "clone_list n (v # vs) h =
    (case cloneNode n v h of
       None \<Rightarrow> None
     | Some (v', h1) \<Rightarrow>
         (case clone_list n vs h1 of
            None \<Rightarrow> None
          | Some (vs', h2) \<Rightarrow> Some (v' # vs', h2)))"

subsection \<open>The folder\<close>

text \<open>
  The end of the cases Unary, Binary and Call of \<open>$onNodeFold\<close>: a safe definition
  whose children are all numbers is evaluated, and the expression is marked dirty;
  otherwise the node stays.  A definition without \<open>eval\<close> cannot be called.
\<close>

definition fold_node :: "defn \<Rightarrow> val \<Rightarrow> val list \<Rightarrow> store \<times> bool \<Rightarrow> (error + val) \<times> store \<times> bool" where
  "fold_node info node children st =
    (if d_safe info \<and> list_all isValue children then
       (case d_eval info of
          None \<Rightarrow> (Inl TypeError, fst st, True)
        | Some f \<Rightarrow> (Inr (VNum (f (map num_of children))), fst st, True))
     else (Inr node, st))"

text \<open>
  \<open>$onNodeFold(node, cmap)\<close> on the store and the \<open>dirty\<close> flag; \<open>cmap\<close> is \<open>None\<close>
  when the argument is absent.  \<open>fold_slots n cmap a is\<close> folds the children of the
  object at \<open>a\<close> with the indices \<open>is\<close> one after the other, each read from the
  object when its turn comes and assigned back at once; it returns the values it
  assigned.  A throw keeps what was written before.
\<close>

fun onNodeFold ::
    "nat \<Rightarrow> (string \<rightharpoonup> num) option \<Rightarrow> val \<Rightarrow> store \<times> bool \<Rightarrow> ((error + val) \<times> store \<times> bool) option"
  and fold_slots ::
    "nat \<Rightarrow> (string \<rightharpoonup> num) option \<Rightarrow> nat \<Rightarrow> nat list \<Rightarrow> store \<times> bool \<Rightarrow>
       ((error + val list) \<times> store \<times> bool) option"
where
  "onNodeFold 0 cmap node st = None"
| "onNodeFold (Suc n) cmap node st =
    (case node of
       VRef a \<Rightarrow>
         if a < length (fst st) then
           (case fst st ! a of
              Var nm \<Rightarrow>
                (case (case cmap of None \<Rightarrow> None | Some m \<Rightarrow> m nm) of
                   Some x \<Rightarrow> Some (Inr (VNum x), fst st, True)
                 | None \<Rightarrow> Some (Inr node, st))
            | Unary nm info v \<Rightarrow>
                (case fold_slots n cmap a [0] st of
                   None \<Rightarrow> None
                 | Some (Inl e, st1) \<Rightarrow> Some (Inl e, st1)
                 | Some (Inr children, st1) \<Rightarrow> Some (fold_node info node children st1))
            | Binary nm info l r \<Rightarrow>
                (case fold_slots n cmap a [0, 1] st of
                   None \<Rightarrow> None
                 | Some (Inl e, st1) \<Rightarrow> Some (Inl e, st1)
                 | Some (Inr children, st1) \<Rightarrow> Some (fold_node info node children st1))
            | Call nm info as \<Rightarrow>
                (case fold_slots n cmap a [0 ..< length as] st of
                   None \<Rightarrow> None
                 | Some (Inl e, st1) \<Rightarrow> Some (Inl e, st1)
                 | Some (Inr children, st1) \<Rightarrow>
                     Some (fold_node info node (slots (fst st1 ! a)) st1)))
         else None
     | _ \<Rightarrow> Some (Inr node, st))"
| "fold_slots n cmap a [] st = Some (Inr [], st)"
| "fold_slots n cmap a (i # is) st =
    (case onNodeFold n cmap (slot_at (fst st) a i) st of
       None \<Rightarrow> None
     | Some (Inl e, st1) \<Rightarrow> Some (Inl e, st1)
     | Some (Inr x, st1) \<Rightarrow>
         (case fold_slots n cmap a is (set_slot a i x (fst st1), snd st1) of
            None \<Rightarrow> None
          | Some (Inl e, st2) \<Rightarrow> Some (Inl e, st2)
          | Some (Inr xs, st2) \<Rightarrow> Some (Inr (x # xs), st2)))"

subsection \<open>The class\<close>

text \<open>
  An \<open>Expression\<close> object: the environment, the root, the \<open>dirty\<close> flag and the two
  caches \<open>$eval\<close> and \<open>$vars\<close> (\<open>None\<close> is \<open>null\<close>).  \<open>'f\<close> is the type of the host's
  functions.
\<close>

record 'f Expression =
  e_env :: Environment
  e_root :: val
  e_dirty :: bool
  e_eval :: "'f option"
  e_vars :: "(string \<rightharpoonup> val) option"

definition new_Expression :: "Environment \<Rightarrow> val \<Rightarrow> 'f Expression" where
  "new_Expression env r =
     \<lparr> e_env = env, e_root = (if r = VUndefined then VNull else r), e_dirty = False,
       e_eval = None, e_vars = None \<rparr>"

definition checkDirty :: "'f Expression \<Rightarrow> 'f Expression" where
  "checkDirty this =
     (if e_dirty this then this \<lparr> e_dirty := False, e_eval := None, e_vars := None \<rparr> else this)"

text \<open>
  \<open>clone()\<close> and \<open>fold(cmap)\<close>, on the store and the object.  When \<open>$onNodeFold\<close>
  throws, the root is not assigned and \<open>_checkDirty\<close> does not run.
\<close>

definition Expression_clone :: "nat \<Rightarrow> store \<times> 'f Expression \<Rightarrow> (store \<times> 'f Expression) option" where
  "Expression_clone n st =
    (case cloneNode n (e_root (snd st)) (fst st) of
       None \<Rightarrow> None
     | Some (r, h1) \<Rightarrow> Some (h1, new_Expression (e_env (snd st)) r))"

definition Expression_fold ::
  "nat \<Rightarrow> (string \<rightharpoonup> num) option \<Rightarrow> store \<times> 'f Expression \<Rightarrow>
     ((error + unit) \<times> store \<times> 'f Expression) option" where
  "Expression_fold n cmap st =
    (case onNodeFold n cmap (e_root (snd st)) (fst st, e_dirty (snd st)) of
       None \<Rightarrow> None
     | Some (Inl e, h1, d1) \<Rightarrow> Some (Inl e, h1, (snd st) \<lparr> e_dirty := d1 \<rparr>)
     | Some (Inr r, h1, d1) \<Rightarrow>
         Some (Inr (), h1, checkDirty ((snd st) \<lparr> e_root := r, e_dirty := d1 \<rparr>)))"

lemmas parse_simps = parse_def peek_def skip_def next_token_def throwTokenError_def NoToken_def newToken_def
  parse_start_def close_group_def after_value_def finish_call_def variable_node_def bind_result_def
  push_binary_def alloc_def set_left_def set_right_def set_value_def info_at_def right_at_def
  rightAssociate_def prec_gt_def prec_seq_def js_lt_def js_seq_def rank_less_def bad_arity_def
  and_then_def throwExpressionError_def Let_def

section \<open>Compile\<close>

text \<open>
  The pieces of an \<open>emit\<close> template as the three \<open>replace\<close> calls of
  \<open>$onNodeCompile\<close> cut it: the case Unary looks for \<open>@1\<close>, the case Binary for
  \<open>@1\<close> and \<open>@2\<close>, the case Call for \<open>@args\<close>, \<open>@1\<close> and \<open>@2\<close>.
\<close>

datatype part = PLit char | P1 | P2 | PArgs

function emit_parts :: "bool \<Rightarrow> bool \<Rightarrow> string \<Rightarrow> part list" where
  "emit_parts two all [] = []"
| "emit_parts two all (c # cs) =
    (if c = CHR ''@'' \<and> all \<and> take 4 cs = ''args'' then PArgs # emit_parts two all (drop 4 cs)
     else if c = CHR ''@'' \<and> take 1 cs = ''1'' then P1 # emit_parts two all (drop 1 cs)
     else if c = CHR ''@'' \<and> two \<and> take 1 cs = ''2'' then P2 # emit_parts two all (drop 1 cs)
     else PLit c # emit_parts two all cs)"
  by pat_completeness auto

termination emit_parts
  by (relation "measure (\<lambda>(two, all, s). length s)") auto

text \<open>
  What stays fixed during \<open>$onNodeCompile\<close>: the host's number formatting, \<open>vmap\<close>
  and the store.  \<open>vmap\<close> is a string (the name of the object that holds the
  variables) or a table from variable names to identifiers.
\<close>

record compiler =
  c_String :: "num \<Rightarrow> string"
  c_vmap :: "string + (string \<rightharpoonup> string)"
  c_heap :: store

definition compile_var :: "compiler \<Rightarrow> string \<Rightarrow> error + string" where
  "compile_var C nm =
    (case c_vmap C of
       Inl v \<Rightarrow> Inr (v @ accessProp nm)
     | Inr m \<Rightarrow>
         (case m nm of
            None \<Rightarrow>
              throwExpressionError
                (''Variable '' @ [CHR 0x27] @ nm @ [CHR 0x27] @ '' used, but no mapping provided'')
          | Some ident \<Rightarrow> Inr ident))"

text \<open>
  \<open>$onNodeCompile(node, vmap)\<close>.  \<open>compile_emit\<close> is \<open>info.emit.replace(...)\<close>: its
  third argument gives the nodes that \<open>@1\<close>, \<open>@2\<close> and \<open>@args\<close> stand for (in a
  call, \<open>@1\<close> and \<open>@2\<close> are \<open>args[1]\<close> and \<open>args[2]\<close>), its last the pieces of the
  template, \<open>None\<close> when the definition has no \<open>emit\<close>.  Reading \<open>info\<close> of \<open>null\<close>
  or \<open>undefined\<close>, and calling \<open>replace\<close> on a missing \<open>emit\<close>, is the host's
  TypeError.  \<open>compile_args\<close> is the loop that joins the arguments.
\<close>

fun onNodeCompile :: "nat \<Rightarrow> compiler \<Rightarrow> val \<Rightarrow> (error + string) option"
  and compile_emit ::
    "nat \<Rightarrow> compiler \<Rightarrow> val \<times> val \<times> val list \<Rightarrow> part list option \<Rightarrow> (error + string) option"
  and compile_args :: "nat \<Rightarrow> compiler \<Rightarrow> string \<Rightarrow> val list \<Rightarrow> (error + string) option"
where
  "onNodeCompile 0 C node = None"
| "onNodeCompile (Suc n) C node =
    (case node of
       VNum x \<Rightarrow> Some (Inr (c_String C x))
     | VRef a \<Rightarrow>
         if a < length (c_heap C) then
           (case c_heap C ! a of
              Var nm \<Rightarrow> Some (compile_var C nm)
            | Unary nm info v \<Rightarrow>
                compile_emit n C (v, VUndefined, []) (map_option (emit_parts False False) (d_emit info))
            | Binary nm info l r \<Rightarrow>
                compile_emit n C (l, r, []) (map_option (emit_parts True False) (d_emit info))
            | Call nm info as \<Rightarrow>
                compile_emit n C
                  (if 1 < length as then as ! 1 else VUndefined,
                   if 2 < length as then as ! 2 else VUndefined, as)
                  (map_option (emit_parts True True) (d_emit info)))
         else None
     | _ \<Rightarrow> Some (Inl TypeError))"
| "compile_emit n C ps None = Some (Inl TypeError)"
| "compile_emit n C ps (Some []) = Some (Inr [])"
| "compile_emit n C ps (Some (p # parts)) =
    bind_result
      (case p of
         PLit c \<Rightarrow> Some (Inr [c])
       | P1 \<Rightarrow> onNodeCompile n C (fst ps)
       | P2 \<Rightarrow> onNodeCompile n C (fst (snd ps))
       | PArgs \<Rightarrow> compile_args n C [] (snd (snd ps)))
      (\<lambda>s. bind_result (compile_emit n C ps (Some parts)) (\<lambda>t. Some (Inr (s @ t))))"
| "compile_args n C s [] = Some (Inr s)"
| "compile_args n C s (v # vs) =
    bind_result (onNodeCompile n C v)
      (\<lambda>t. compile_args n C ((if s \<noteq> [] then s @ '', '' else s) @ t) vs)"

text \<open>\<open>Array.prototype.join\<close> with the separator \<open>", "\<close>.\<close>

fun join_names :: "string list \<Rightarrow> string" where
  "join_names [] = []"
| "join_names [x] = x"
| "join_names (x # y # ys) = x @ '', '' @ join_names (y # ys)"

text \<open>
  \<open>$onFuncCompile(node, vmap, varr)\<close>: the body, the source text handed to the
  host's \<open>Function\<close>, and the function it returns; an exception of the host becomes
  an ExpressionError.
\<close>

definition onFuncCompile ::
  "nat \<Rightarrow> 'f host \<Rightarrow> Environment \<Rightarrow> store \<Rightarrow> val \<Rightarrow> string + (string \<rightharpoonup> string) \<Rightarrow>
     string list option \<Rightarrow> (error + 'f) option" where
  "onFuncCompile n H env h node vmap varr =
    (case onNodeCompile n \<lparr> c_String = h_String H, c_vmap = vmap, c_heap = h \<rparr> node of
       None \<Rightarrow> None
     | Some (Inl e) \<Rightarrow> Some (Inl e)
     | Some (Inr body) \<Rightarrow>
         (case h_Function H
                 (''return function('' @
                    (case varr of
                       Some names \<Rightarrow> join_names names
                     | None \<Rightarrow> (case vmap of Inl v \<Rightarrow> v | Inr m \<Rightarrow> ''[object Object]'')) @
                  '') {'' @ [CHR 0x0A] @ ''  return '' @ body @ '';'' @ [CHR 0x0A] @ ''}'' @ [CHR 0x0A])
                 (func env) of
            Inl msg \<Rightarrow> Some (Inl (ExpressionError (msg @ '': '' @ body) (- 1)))
          | Inr f \<Rightarrow> Some (Inr f)))"

text \<open>
  A value that a caller may pass where an array of names is expected.  The elements
  of an array are the property keys they are used as.
\<close>

datatype jsvalue =
  JSUndefined | JSNull | JSBoolean bool | JSNumber num | JSString string | JSObject
| JSArray "string list"

fun typeof :: "jsvalue \<Rightarrow> string" where
  "typeof JSUndefined = ''undefined''"
| "typeof JSNull = ''object''"
| "typeof (JSBoolean b) = ''boolean''"
| "typeof (JSNumber x) = ''number''"
| "typeof (JSString s) = ''string''"
| "typeof JSObject = ''object''"
| "typeof (JSArray xs) = ''object''"

fun isArray :: "jsvalue \<Rightarrow> bool" where
  "isArray (JSArray xs) = True"
| "isArray _ = False"

text \<open>
  The loop of \<open>compile\<close> over the names: \<open>varr\<close> collects the identifiers \<open>_1\<close>,
  \<open>_2\<close>, ..., \<open>vmap\<close> maps the names to them; a name that is already mapped is an
  error.  \<open>i\<close> is the index of the head of the list.
\<close>

fun compile_names ::
  "(num \<Rightarrow> string) \<Rightarrow> nat \<Rightarrow> string list \<Rightarrow> string list \<Rightarrow> (string \<rightharpoonup> string) \<Rightarrow>
     error + string list \<times> (string \<rightharpoonup> string)" where
  "compile_names S i [] varr vmap = Inr (varr, vmap)"
| "compile_names S i (name # names) varr vmap =
    (if vmap name \<noteq> None then
       throwExpressionError (''Variable '' @ [CHR 0x27] @ name @ [CHR 0x27] @ '' provided multiple times'')
     else compile_names S (i + 1) names (varr @ [''_'' @ S (Fin (real (i + 1)))])
            (vmap(name \<mapsto> ''_'' @ S (Fin (real (i + 1))))))"

definition Expression_compile ::
  "nat \<Rightarrow> 'f host \<Rightarrow> store \<times> 'f Expression \<Rightarrow> jsvalue \<Rightarrow> (error + 'f) option" where
  "Expression_compile n H st args =
    (if \<not> isArray args then
       Some (throwExpressionError
         (''Argument '' @ [CHR 0x27] @ ''args'' @ [CHR 0x27] @ '' must be an array, not '' @
          [CHR 0x27] @ typeof args @ [CHR 0x27]))
     else
       (case compile_names (h_String H) 0 (case args of JSArray xs \<Rightarrow> xs | _ \<Rightarrow> []) [] Map.empty of
          Inl e \<Rightarrow> Some (Inl e)
        | Inr (varr, vmap) \<Rightarrow>
            onFuncCompile n H (e_env (snd st)) (fst st) (e_root (snd st)) (Inr vmap) (Some varr)))"

text \<open>
  The getter \<open>eval\<close>: the cached function, or the function compiled now and kept.
  The result comes with the object as the call leaves it.
\<close>

definition Expression_eval ::
  "nat \<Rightarrow> 'f host \<Rightarrow> store \<times> 'f Expression \<Rightarrow> ((error + 'f) \<times> 'f Expression) option" where
  "Expression_eval n H st =
    (case e_eval (snd st) of
       Some f \<Rightarrow> Some (Inr f, snd st)
     | None \<Rightarrow>
         (case onFuncCompile n H (e_env (snd st)) (fst st) (e_root (snd st)) (Inl ''v'') None of
            None \<Rightarrow> None
          | Some (Inl e) \<Rightarrow> Some (Inl e, snd st)
          | Some (Inr f) \<Rightarrow> Some (Inr f, (snd st) \<lparr> e_eval := Some f \<rparr>)))"

text \<open>
  \<open>Environment.exp(input, options)\<close>: tokenize, parse (\<open>parse()\<close> makes the
  expression with the root \<open>null\<close> and then assigns the root), and fold unless
  \<open>noFolding\<close> is true.  \<open>h\<close> is the store the call starts from; \<open>n\<close> bounds the depth of the
  parser's and of the folder's calls.
\<close>

definition exp ::
  "nat \<Rightarrow> (num \<Rightarrow> string) \<Rightarrow> Environment \<Rightarrow> store \<Rightarrow> string \<Rightarrow> options \<Rightarrow>
     (error + store \<times> 'f Expression) option" where
  "exp n S this h input opts =
    (case tokenize this input of
       Inl e \<Rightarrow> Some (Inl e)
     | Inr tokens \<Rightarrow>
         bind_result
           (parse n \<lparr> p_env = this, p_options = opts, p_tokens = tokens, p_String = S \<rparr>
              \<lparr> tIndex = 0, vars = Map.empty, heap = h \<rparr>)
           (\<lambda>(r, st).
              if noFolding opts then Some (Inr (heap st, (new_Expression this VNull) \<lparr> e_root := r \<rparr>))
              else
                (case Expression_fold n None (heap st, (new_Expression this VNull) \<lparr> e_root := r \<rparr>) of
                   None \<Rightarrow> None
                 | Some (Inl e, st1) \<Rightarrow> Some (Inl e)
                 | Some (Inr u, st1) \<Rightarrow> Some (Inr st1))))"


section \<open>Trees in the store\<close>

definition is_var :: "obj \<Rightarrow> bool" where
  "is_var ob = (case ob of Var nm \<Rightarrow> True | _ \<Rightarrow> False)"

fun obj_info :: "obj \<Rightarrow> defn option" where
  "obj_info (Var nm) = None"
| "obj_info (Unary nm info v) = Some info"
| "obj_info (Binary nm info l r) = Some info"
| "obj_info (Call nm info as) = Some info"

fun nodes :: "nat \<Rightarrow> store \<Rightarrow> val \<Rightarrow> nat list option"
  and nodes_list :: "nat \<Rightarrow> store \<Rightarrow> val list \<Rightarrow> nat list option"
where
  "nodes n h VUndefined = Some []"
| "nodes n h VNull = Some []"
| "nodes n h (VNum x) = Some []"
| "nodes 0 h (VRef a) = None"
| "nodes (Suc n) h (VRef a) =
    (if a < length h then
       (if is_var (h ! a) then Some []
        else (case nodes_list n h (slots (h ! a)) of None \<Rightarrow> None | Some A \<Rightarrow> Some (a # A)))
     else None)"
| "nodes_list n h [] = Some []"
| "nodes_list n h (v # vs) =
    (case nodes n h v of
       None \<Rightarrow> None
     | Some A \<Rightarrow> (case nodes_list n h vs of None \<Rightarrow> None | Some B \<Rightarrow> Some (A @ B)))"

lemma put_slot_same: "put_slot i (if i < length (slots ob) then slots ob ! i else VUndefined) ob = ob"
  by (cases ob) (auto simp: nth_Cons' list_update_beyond)

lemma set_slot_same: "set_slot a i (slot_at h a i) h = h"
  by (simp add: set_slot_def slot_at_def put_slot_same)


lemma upt_slots: "[0..<Suc 0] = [0]" "[0..<Suc (Suc 0)] = [0, Suc 0]"
  by simp_all

text \<open>
  The children that the last test of the folder reads: the values just assigned, or,
  in the case Call, the array.
\<close>

fun tested_children :: "obj \<Rightarrow> val list \<Rightarrow> obj \<Rightarrow> val list" where
  "tested_children (Call nm info as) xs ob' = slots ob'"
| "tested_children ob xs ob' = xs"

lemma tested_children_same: "xs = slots ob' \<Longrightarrow> tested_children ob xs ob' = xs"
  by (cases ob) simp_all

text \<open>The three cases of the folder for a node object, in one equation.\<close>

lemma onNodeFold_object:
  assumes "a < length (fst st)" and "\<not> is_var (fst st ! a)"
  shows "onNodeFold (Suc n) cmap (VRef a) st =
    (case fold_slots n cmap a [0 ..< length (slots (fst st ! a))] st of
       None \<Rightarrow> None
     | Some (Inl e, st1) \<Rightarrow> Some (Inl e, st1)
     | Some (Inr xs, st1) \<Rightarrow>
         Some (fold_node (the (obj_info (fst st ! a))) (VRef a)
                 (tested_children (fst st ! a) xs (fst st1 ! a)) st1))"
  using assms
  by (cases "fst st ! a")
     (auto simp: is_var_def upt_slots simp del: fold_slots.simps split: option.splits sum.splits)


lemma onNodeFold_dangling:
  "\<not> a < length (fst st) \<Longrightarrow> onNodeFold (Suc n) cmap (VRef a) st = None"
  by simp

lemmas onNodeFold_Suc = onNodeFold.simps(2)





subsection \<open>Footprints\<close>

lemma nodes_ref:
  "nodes (Suc n) h (VRef a) = Some A \<longleftrightarrow>
     a < length h \<and>
     (if is_var (h ! a) then A = []
      else \<exists>B. nodes_list n h (slots (h ! a)) = Some B \<and> A = a # B)"
  by (auto split: option.splits)

lemma nodes_leaf: "(\<And>a. v \<noteq> VRef a) \<Longrightarrow> nodes n h v = Some A \<longleftrightarrow> A = []"
  by (cases v) auto

lemma nodes_list_Cons:
  "nodes_list n h (v # vs) = Some B \<longleftrightarrow>
     (\<exists>A B'. nodes n h v = Some A \<and> nodes_list n h vs = Some B' \<and> B = A @ B')"
  by (auto split: option.splits)

lemma nodes_list_members:
  assumes "\<And>v A. nodes n h v = Some A \<Longrightarrow> b \<in> set A \<Longrightarrow> b < length h \<and> \<not> is_var (h ! b)"
  shows "nodes_list n h vs = Some B \<Longrightarrow> b \<in> set B \<Longrightarrow> b < length h \<and> \<not> is_var (h ! b)"
proof (induction vs arbitrary: B)
  case Nil
  then show ?case by simp
next
  case (Cons v vs)
  from Cons.prems(1) obtain A B' where
    "nodes n h v = Some A" "nodes_list n h vs = Some B'" "B = A @ B'"
    unfolding nodes_list_Cons by blast
  with Cons.prems(2) Cons.IH [of B'] assms [of v A] show ?case by auto
qed

lemma nodes_members:
  "nodes n h v = Some A \<Longrightarrow> b \<in> set A \<Longrightarrow> b < length h \<and> \<not> is_var (h ! b)"
proof (induction n arbitrary: v A)
  case 0
  then show ?case by (cases v) auto
next
  case (Suc n)
  show ?case
  proof (cases v)
    case (VRef a)
    with Suc.prems show ?thesis
      unfolding VRef nodes_ref
      using nodes_list_members [of n h b, OF Suc.IH]
      by (auto split: if_splits)
  qed (use Suc.prems in auto)
qed

lemma nodes_list_cong:
  assumes "\<And>v A. nodes n h v = Some A \<Longrightarrow> (\<forall>b \<in> set A. h' ! b = h ! b) \<Longrightarrow> nodes n h' v = Some A"
  shows "nodes_list n h vs = Some B \<Longrightarrow> (\<forall>b \<in> set B. h' ! b = h ! b) \<Longrightarrow> nodes_list n h' vs = Some B"
proof (induction vs arbitrary: B)
  case Nil
  then show ?case by simp
next
  case (Cons v vs)
  from Cons.prems(1) obtain A B' where
    ab: "nodes n h v = Some A" "nodes_list n h vs = Some B'" "B = A @ B'"
    unfolding nodes_list_Cons by blast
  with Cons.prems(2) Cons.IH [of B'] assms [of v A] show ?case
    unfolding nodes_list_Cons by auto
qed

text \<open>
  The footprint of a tree depends on its own objects and on the variable objects
  only.
\<close>

lemma nodes_cong:
  assumes "length h' = length h"
    and "\<forall>b < length h. is_var (h ! b) \<longrightarrow> h' ! b = h ! b"
  shows "nodes n h v = Some A \<Longrightarrow> (\<forall>b \<in> set A. h' ! b = h ! b) \<Longrightarrow> nodes n h' v = Some A"
proof (induction n arbitrary: v A)
  case 0
  then show ?case by (cases v) auto
next
  case (Suc n)
  show ?case
  proof (cases v)
    case (VRef a)
    show ?thesis
    proof (cases "is_var (h ! a)")
      case True
      with Suc.prems assms show ?thesis
        unfolding VRef nodes_ref by auto
    next
      case False
      with Suc.prems(1) obtain B where B: "a < length h" "nodes_list n h (slots (h ! a)) = Some B" "A = a # B"
        unfolding VRef nodes_ref by auto
      with Suc.prems(2) have a: "h' ! a = h ! a" by simp
      have "nodes_list n h' (slots (h ! a)) = Some B"
        using nodes_list_cong [of n h h', OF Suc.IH] B(2) Suc.prems(2) B(3) by auto
      with a B False assms show ?thesis
        unfolding VRef nodes_ref by simp
    qed
  qed (use Suc.prems in auto)
qed

lemma nodes_list_cong':
  assumes "length h' = length h"
    and "\<forall>b < length h. is_var (h ! b) \<longrightarrow> h' ! b = h ! b"
  shows "nodes_list n h vs = Some B \<Longrightarrow> (\<forall>b \<in> set B. h' ! b = h ! b) \<Longrightarrow> nodes_list n h' vs = Some B"
  by (rule nodes_list_cong) (rule nodes_cong [OF assms])


subsection \<open>Slots\<close>

lemma slots_put_slot: "slots (put_slot i x ob) = (slots ob)[i := x]"
  by (cases ob) (auto simp: list_update_beyond list_update_code split: nat.splits)

lemma is_var_put_slot: "is_var (put_slot i x ob) = is_var ob"
  by (cases ob) (auto simp: is_var_def)

lemma obj_info_put_slot: "obj_info (put_slot i x ob) = obj_info ob"
  by (cases ob) auto

lemma put_slot_var: "is_var ob \<Longrightarrow> put_slot i x ob = ob"
  by (cases ob) (auto simp: is_var_def)

lemma length_set_slot: "length (set_slot a i x h) = length h"
  by (simp add: set_slot_def)

lemma set_slot_other: "b \<noteq> a \<Longrightarrow> set_slot a i x h ! b = h ! b"
  by (simp add: set_slot_def)

lemma set_slot_at: "a < length h \<Longrightarrow> set_slot a i x h ! a = put_slot i x (h ! a)"
  by (simp add: set_slot_def)

lemma slot_at_set_slot:
  "a < length h \<Longrightarrow>
     slot_at (set_slot a i x h) a j =
       (if j = i \<and> i < length (slots (h ! a)) then x else slot_at h a j)"
  by (auto simp: slot_at_def set_slot_def slots_put_slot)

lemma map_slot_at: "map (slot_at h a) [0 ..< length (slots (h ! a))] = slots (h ! a)"
  by (auto simp: slot_at_def intro: nth_equalityI)

subsection \<open>Folded trees\<close>

text \<open>
  A tree on which the folder has nothing to do without substitutions: no node object
  in it has a safe definition and numbers for all its children.
\<close>

fun folded :: "nat \<Rightarrow> store \<Rightarrow> val \<Rightarrow> bool" where
  "folded n h VUndefined = True"
| "folded n h VNull = True"
| "folded n h (VNum x) = True"
| "folded 0 h (VRef a) = False"
| "folded (Suc n) h (VRef a) =
    (a < length h \<and>
     (is_var (h ! a) \<or>
      (list_all (folded n h) (slots (h ! a)) \<and>
       \<not> (d_safe (the (obj_info (h ! a))) \<and> list_all isValue (slots (h ! a))))))"

lemma folded_list_cong:
  assumes "\<And>v A. nodes n h v = Some A \<Longrightarrow> folded n h v \<Longrightarrow> (\<forall>b \<in> set A. h' ! b = h ! b) \<Longrightarrow> folded n h' v"
  shows "nodes_list n h vs = Some B \<Longrightarrow> list_all (folded n h) vs \<Longrightarrow>
           (\<forall>b \<in> set B. h' ! b = h ! b) \<Longrightarrow> list_all (folded n h') vs"
proof (induction vs arbitrary: B)
  case Nil
  then show ?case by simp
next
  case (Cons v vs)
  from Cons.prems(1) obtain A B' where
    ab: "nodes n h v = Some A" "nodes_list n h vs = Some B'" "B = A @ B'"
    unfolding nodes_list_Cons by blast
  with Cons.prems(2,3) Cons.IH [of B'] assms [of v A] show ?case by auto
qed

lemma folded_cong:
  assumes "length h' = length h"
    and "\<forall>b < length h. is_var (h ! b) \<longrightarrow> h' ! b = h ! b"
  shows "nodes n h v = Some A \<Longrightarrow> folded n h v \<Longrightarrow> (\<forall>b \<in> set A. h' ! b = h ! b) \<Longrightarrow> folded n h' v"
proof (induction n arbitrary: v A)
  case 0
  then show ?case by (cases v) auto
next
  case (Suc n)
  show ?case
  proof (cases v)
    case (VRef a)
    show ?thesis
    proof (cases "is_var (h ! a)")
      case True
      with Suc.prems assms show ?thesis
        unfolding VRef nodes_ref by auto
    next
      case False
      with Suc.prems(1) obtain B where B: "a < length h" "nodes_list n h (slots (h ! a)) = Some B" "A = a # B"
        unfolding VRef nodes_ref by auto
      with Suc.prems(3) have a: "h' ! a = h ! a" by simp
      have "list_all (folded n h') (slots (h ! a))"
        using folded_list_cong [of n h h', OF Suc.IH] B(2,3) Suc.prems(2,3) False
        unfolding VRef by auto
      with a B False assms Suc.prems(2) show ?thesis
        unfolding VRef by simp
    qed
  qed (use Suc.prems in auto)
qed

lemma fold_slots_folded:
  assumes "\<And>v d. folded n h v \<Longrightarrow> onNodeFold (Suc n) None v (h, d) = Some (Inr v, h, d)"
  shows "\<forall>i \<in> set is. folded n h (slot_at h a i) \<Longrightarrow>
           fold_slots (Suc n) None a is (h, d) = Some (Inr (map (slot_at h a) is), h, d)"
proof (induction "is")
  case Nil
  then show ?case by simp
next
  case (Cons i "is")
  then show ?case
    by (simp add: assms set_slot_same del: onNodeFold_Suc)
qed

text \<open>On a folded tree the folder assigns every child to itself and returns the node.\<close>

lemma onNodeFold_folded:
  "folded n h v \<Longrightarrow> onNodeFold (Suc n) None v (h, d) = Some (Inr v, h, d)"
proof (induction n arbitrary: v d)
  case 0
  then show ?case by (cases v) auto
next
  case (Suc n)
  show ?case
  proof (cases v)
    case (VRef a)
    with Suc.prems have lt: "a < length h" by simp
    show ?thesis
    proof (cases "is_var (h ! a)")
      case True
      then obtain nm where "h ! a = Var nm"
        by (cases "h ! a") (simp_all add: is_var_def)
      with lt show ?thesis
        unfolding VRef by simp
    next
      case False
      with Suc.prems have f: "list_all (folded n h) (slots (h ! a))"
        and ns: "\<not> (d_safe (the (obj_info (h ! a))) \<and> list_all isValue (slots (h ! a)))"
        unfolding VRef by auto
      from f have "\<forall>i \<in> set [0 ..< length (slots (h ! a))]. folded n h (slot_at h a i)"
        by (auto simp: slot_at_def list_all_length)
      then have fs: "fold_slots (Suc n) None a [0 ..< length (slots (h ! a))] (h, d) =
          Some (Inr (slots (h ! a)), h, d)"
        using fold_slots_folded [of n h "[0 ..< length (slots (h ! a))]" a d, OF Suc.IH]
        by (simp add: map_slot_at)
      with fs ns lt False show ?thesis
        unfolding VRef
        by (auto simp: onNodeFold_object fold_node_def tested_children_same simp del: onNodeFold_Suc)
    qed
  qed simp_all
qed


subsection \<open>Folding a tree\<close>

text \<open>
  What the folder leaves behind when it has worked on a tree with footprint \<open>A\<close>:
  it has written inside the footprint only, and a result that is not an error is
  again a tree, inside the old footprint, and folded when there were no
  substitutions.
\<close>

definition fold_post ::
  "nat \<Rightarrow> (string \<rightharpoonup> num) option \<Rightarrow> store \<Rightarrow> nat list \<Rightarrow> error + val \<Rightarrow> store \<Rightarrow> bool" where
  "fold_post n cmap h A r h' =
    (length h' = length h \<and> (\<forall>b. b \<notin> set A \<longrightarrow> h' ! b = h ! b) \<and>
     (\<forall>v'. r = Inr v' \<longrightarrow>
        (\<exists>A'. nodes n h' v' = Some A' \<and> set A' \<subseteq> set A \<and> distinct A' \<and>
              (cmap = None \<longrightarrow> folded n h' v'))))"

definition slots_post ::
  "nat \<Rightarrow> (string \<rightharpoonup> num) option \<Rightarrow> store \<Rightarrow> nat \<Rightarrow> nat list \<Rightarrow> nat list \<Rightarrow> error + val list \<Rightarrow> store \<Rightarrow> bool" where
  "slots_post n cmap h a is B rs h' =
    (length h' = length h \<and> (\<forall>b. b \<notin> set B \<longrightarrow> b \<noteq> a \<longrightarrow> h' ! b = h ! b) \<and>
     obj_info (h' ! a) = obj_info (h ! a) \<and> is_var (h' ! a) = is_var (h ! a) \<and>
     length (slots (h' ! a)) = length (slots (h ! a)) \<and>
     (\<forall>j. j \<notin> set is \<longrightarrow> slot_at h' a j = slot_at h a j) \<and>
     (\<forall>xs. rs = Inr xs \<longrightarrow>
        map (slot_at h' a) is = xs \<and>
        (\<exists>B'. nodes_list n h' xs = Some B' \<and> set B' \<subseteq> set B \<and> distinct B' \<and>
              (cmap = None \<longrightarrow> list_all (folded n h') xs))))"

lemma slot_at_cong: "h' ! a = h ! a \<Longrightarrow> slot_at h' a j = slot_at h a j"
  by (simp add: slot_at_def)

lemma nodes_list_members':
  "nodes_list n h vs = Some B \<Longrightarrow> b \<in> set B \<Longrightarrow> b < length h \<and> \<not> is_var (h ! b)"
  by (rule nodes_list_members) (rule nodes_members)

lemma fold_slots_tree:
  assumes P: "\<And>v h d A. nodes n h v = Some A \<Longrightarrow> distinct A \<Longrightarrow>
      \<exists>r h' d'. onNodeFold (Suc n) cmap v (h, d) = Some (r, h', d') \<and> fold_post n cmap h A r h'"
  shows "a < length h \<Longrightarrow> \<not> is_var (h ! a) \<Longrightarrow> distinct is \<Longrightarrow>
     \<forall>i \<in> set is. i < length (slots (h ! a)) \<Longrightarrow>
     nodes_list n h (map (slot_at h a) is) = Some B \<Longrightarrow> distinct B \<Longrightarrow> a \<notin> set B \<Longrightarrow>
     \<exists>rs h' d'. fold_slots (Suc n) cmap a is (h, d) = Some (rs, h', d') \<and>
                slots_post n cmap h a is B rs h'"
proof (induction "is" arbitrary: h d B)
  case Nil
  then show ?case by (simp add: slots_post_def)
next
  case (Cons i "is")
  let ?c = "slot_at h a i"
  from Cons.prems(5) obtain B1 B2 where
    b: "nodes n h ?c = Some B1" "nodes_list n h (map (slot_at h a) is) = Some B2" "B = B1 @ B2"
    by (auto split: option.splits)
  from Cons.prems(6,7) b(3) have d12: "distinct B1" "distinct B2" "set B1 \<inter> set B2 = {}"
    and an: "a \<notin> set B1" "a \<notin> set B2"
    by auto
  from P [OF b(1) d12(1), of d] obtain r1 h1 d1 where
    f1: "onNodeFold (Suc n) cmap ?c (h, d) = Some (r1, h1, d1)" and
    p1: "fold_post n cmap h B1 r1 h1"
    by blast
  from p1 have len1: "length h1 = length h" and fr1: "\<And>b. b \<notin> set B1 \<Longrightarrow> h1 ! b = h ! b"
    by (simp_all add: fold_post_def)
  from fr1 an(1) have a1: "h1 ! a = h ! a" by simp
  have sa1: "\<And>j. slot_at h1 a j = slot_at h a j"
    by (rule slot_at_cong [OF a1])
  show ?case
  proof (cases r1)
    case (Inl e)
    with f1 have "fold_slots (Suc n) cmap a (i # is) (h, d) = Some (Inl e, h1, d1)"
      by (simp del: onNodeFold_Suc)
    moreover have "slots_post n cmap h a (i # is) B (Inl e) h1"
      using len1 fr1 a1 b(3) by (simp add: slots_post_def sa1)
    ultimately show ?thesis by blast
  next
    case (Inr x)
    with p1 obtain B1' where
      x: "nodes n h1 x = Some B1'" "set B1' \<subseteq> set B1" "distinct B1'" "cmap = None \<longrightarrow> folded n h1 x"
      by (auto simp: fold_post_def)
    let ?h = "set_slot a i x h1"
    have la: "a < length h1" using Cons.prems(1) len1 by simp
    have lenh: "length ?h = length h" by (simp add: length_set_slot len1)
    have ha: "?h ! a = put_slot i x (h ! a)" using la a1 by (simp add: set_slot_at)
    have ho: "\<And>b. b \<noteq> a \<Longrightarrow> ?h ! b = h1 ! b" by (simp add: set_slot_other)
    have vp: "\<forall>b < length h. is_var (h ! b) \<longrightarrow> ?h ! b = h ! b"
    proof (intro allI impI)
      fix b assume "b < length h" "is_var (h ! b)"
      with Cons.prems(2) have "b \<noteq> a" by auto
      moreover have "b \<notin> set B1" using nodes_members [OF b(1)] \<open>is_var (h ! b)\<close> by blast
      ultimately show "?h ! b = h ! b" using ho fr1 by simp
    qed
    from Cons.prems(3) have ni: "i \<notin> set is" and dis: "distinct is" by simp_all
    have sl: "\<And>j. j \<noteq> i \<Longrightarrow> slot_at ?h a j = slot_at h a j"
      using la by (simp add: slot_at_set_slot sa1)
    have meq: "map (slot_at ?h a) is = map (slot_at h a) is"
    proof (rule map_cong [OF refl])
      fix j assume "j \<in> set is"
      with ni have "j \<noteq> i" by auto
      then show "slot_at ?h a j = slot_at h a j" by (rule sl)
    qed
    have nl: "nodes_list n ?h (map (slot_at ?h a) is) = Some B2"
      unfolding meq
    proof (rule nodes_list_cong' [OF lenh vp b(2)])
      show "\<forall>b \<in> set B2. ?h ! b = h ! b"
      proof
        fix b assume "b \<in> set B2"
        with an(2) d12(3) have "b \<noteq> a" "b \<notin> set B1" by auto
        then show "?h ! b = h ! b" using ho fr1 by simp
      qed
    qed
    have "\<exists>rs h' d'. fold_slots (Suc n) cmap a is (?h, d1) = Some (rs, h', d') \<and>
                slots_post n cmap ?h a is B2 rs h'"
    proof (rule Cons.IH [OF _ _ dis _ nl d12(2) an(2)])
      show "a < length ?h" using Cons.prems(1) lenh by simp
      show "\<not> is_var (?h ! a)" using Cons.prems(2) ha by (simp add: is_var_put_slot)
      show "\<forall>i \<in> set is. i < length (slots (?h ! a))"
        using Cons.prems(4) ha by (simp add: slots_put_slot)
    qed
    then obtain rs2 h2 d2 where
      f2: "fold_slots (Suc n) cmap a is (?h, d1) = Some (rs2, h2, d2)" and
      p2: "slots_post n cmap ?h a is B2 rs2 h2"
      by blast
    let ?rs = "case rs2 of Inl e \<Rightarrow> Inl e | Inr xs \<Rightarrow> Inr (x # xs)"
    from f1 Inr f2 have f: "fold_slots (Suc n) cmap a (i # is) (h, d) = Some (?rs, h2, d2)"
      by (simp del: onNodeFold_Suc split: sum.splits)
    from p2 have len2: "length h2 = length h"
      and fr2: "\<And>b. b \<notin> set B2 \<Longrightarrow> b \<noteq> a \<Longrightarrow> h2 ! b = ?h ! b"
      and sh2: "obj_info (h2 ! a) = obj_info (?h ! a)" "is_var (h2 ! a) = is_var (?h ! a)"
               "length (slots (h2 ! a)) = length (slots (?h ! a))"
      and sl2: "\<And>j. j \<notin> set is \<Longrightarrow> slot_at h2 a j = slot_at ?h a j"
      by (simp_all add: slots_post_def lenh)
    have fr: "\<And>b. b \<notin> set B \<Longrightarrow> b \<noteq> a \<Longrightarrow> h2 ! b = h ! b"
      using fr2 ho fr1 b(3) by simp
    have fr12: "\<And>b. b \<notin> set B2 \<Longrightarrow> b \<noteq> a \<Longrightarrow> h2 ! b = h1 ! b"
      using fr2 ho by simp
    have sli: "slot_at h2 a i = x"
      using sl2 [OF ni] la a1 Cons.prems(4) by (simp add: slot_at_set_slot)
    have res: "\<forall>xs. ?rs = Inr xs \<longrightarrow>
        map (slot_at h2 a) (i # is) = xs \<and>
        (\<exists>B'. nodes_list n h2 xs = Some B' \<and> set B' \<subseteq> set B \<and> distinct B' \<and>
              (cmap = None \<longrightarrow> list_all (folded n h2) xs))"
    proof (intro allI impI)
      fix ys assume "?rs = Inr ys"
      then obtain xs where xs: "rs2 = Inr xs" "ys = x # xs"
        by (cases rs2) auto
      with p2 obtain B2' where
        m2: "map (slot_at h2 a) is = xs" and
        n2: "nodes_list n h2 xs = Some B2'" "set B2' \<subseteq> set B2" "distinct B2'"
            "cmap = None \<longrightarrow> list_all (folded n h2) xs"
        by (auto simp: slots_post_def)
      have len12: "length h2 = length h1" using len2 len1 by simp
      have vp12: "\<forall>b < length h1. is_var (h1 ! b) \<longrightarrow> h2 ! b = h1 ! b"
      proof (intro allI impI)
        fix b assume bl: "b < length h1" and bv: "is_var (h1 ! b)"
        have "b \<noteq> a" using bv a1 Cons.prems(2) by auto
        moreover have "b \<notin> set B2"
        proof
          assume bb: "b \<in> set B2"
          then have "\<not> is_var (h ! b)" using nodes_list_members' [OF b(2)] by blast
          moreover from bb d12(3) have "b \<notin> set B1" by auto
          ultimately show False using bv fr1 by simp
        qed
        ultimately show "h2 ! b = h1 ! b" using fr12 by simp
      qed
      have in1: "\<forall>b \<in> set B1'. h2 ! b = h1 ! b"
      proof
        fix b assume "b \<in> set B1'"
        with x(2) have "b \<in> set B1" by auto
        with d12(3) an(1) have "b \<notin> set B2" "b \<noteq> a" by auto
        then show "h2 ! b = h1 ! b" using fr12 by simp
      qed
      have nx: "nodes n h2 x = Some B1'"
        by (rule nodes_cong [OF len12 vp12 x(1) in1])
      have fx: "cmap = None \<longrightarrow> folded n h2 x"
        using folded_cong [OF len12 vp12 x(1) _ in1] x(4) by blast
      have "nodes_list n h2 (x # xs) = Some (B1' @ B2')"
        using nx n2(1) by simp
      moreover have "set (B1' @ B2') \<subseteq> set B" using x(2) n2(2) b(3) by auto
      moreover have "distinct (B1' @ B2')" using x(2,3) n2(2,3) d12(3) by auto
      moreover have "cmap = None \<longrightarrow> list_all (folded n h2) (x # xs)" using fx n2(4) by simp
      moreover have "map (slot_at h2 a) (i # is) = x # xs" using sli m2 by simp
      ultimately show "map (slot_at h2 a) (i # is) = ys \<and>
        (\<exists>B'. nodes_list n h2 ys = Some B' \<and> set B' \<subseteq> set B \<and> distinct B' \<and>
              (cmap = None \<longrightarrow> list_all (folded n h2) ys))"
        unfolding xs(2) by blast
    qed
    have "slots_post n cmap h a (i # is) B ?rs h2"
      unfolding slots_post_def
      using len2 fr sh2 ha sl2 sl res
      by (simp add: obj_info_put_slot is_var_put_slot slots_put_slot)
    with f show ?thesis by blast
  qed
qed


lemma onNodeFold_tree:
  "nodes n h v = Some A \<Longrightarrow> distinct A \<Longrightarrow>
     \<exists>r h' d'. onNodeFold (Suc n) cmap v (h, d) = Some (r, h', d') \<and> fold_post n cmap h A r h'"
proof (induction n arbitrary: v h d A)
  case 0
  then have "onNodeFold (Suc 0) cmap v (h, d) = Some (Inr v, h, d) \<and> fold_post 0 cmap h A (Inr v) h"
    by (cases v) (simp_all add: fold_post_def)
  then show ?case by blast
next
  case (Suc n)
  show ?case
  proof (cases v)
    case (VRef a)
    from Suc.prems(1) have lt: "a < length h"
      unfolding VRef nodes_ref by simp
    show ?thesis
    proof (cases "is_var (h ! a)")
      case True
      then obtain nm where nm: "h ! a = Var nm"
        by (cases "h ! a") (simp_all add: is_var_def)
      from True Suc.prems(1) have A: "A = []"
        unfolding VRef nodes_ref by simp
      show ?thesis
      proof (cases "case cmap of None \<Rightarrow> None | Some m \<Rightarrow> m nm")
        case None
        with lt nm have "onNodeFold (Suc (Suc n)) cmap (VRef a) (h, d) = Some (Inr (VRef a), h, d)"
          by simp
        moreover have "fold_post (Suc n) cmap h A (Inr (VRef a)) h"
          using lt True A by (simp add: fold_post_def)
        ultimately show ?thesis unfolding VRef by blast
      next
        case (Some x)
        with lt nm have "onNodeFold (Suc (Suc n)) cmap (VRef a) (h, d) = Some (Inr (VNum x), h, True)"
          by simp
        moreover have "fold_post (Suc n) cmap h A (Inr (VNum x)) h"
          by (simp add: fold_post_def)
        ultimately show ?thesis unfolding VRef by blast
      qed
    next
      case False
      with Suc.prems(1) obtain B where B: "nodes_list n h (slots (h ! a)) = Some B" "A = a # B"
        unfolding VRef nodes_ref by auto
      with Suc.prems(2) have dB: "distinct B" "a \<notin> set B" by simp_all
      let ?is = "[0 ..< length (slots (h ! a))]"
      have "\<exists>rs h' d'. fold_slots (Suc n) cmap a ?is (h, d) = Some (rs, h', d') \<and>
                slots_post n cmap h a ?is B rs h'"
      proof (rule fold_slots_tree [OF _ lt False _ _ _ dB])
        show "\<And>v h d A. nodes n h v = Some A \<Longrightarrow> distinct A \<Longrightarrow>
          \<exists>r h' d'. onNodeFold (Suc n) cmap v (h, d) = Some (r, h', d') \<and> fold_post n cmap h A r h'"
          by (rule Suc.IH)
        show "distinct ?is" by simp
        show "\<forall>i \<in> set ?is. i < length (slots (h ! a))" by simp
        show "nodes_list n h (map (slot_at h a) ?is) = Some B"
          using B(1) by (simp only: map_slot_at)
      qed
      then obtain rs h' d' where
        f: "fold_slots (Suc n) cmap a ?is (h, d) = Some (rs, h', d')" and
        p: "slots_post n cmap h a ?is B rs h'"
        by blast
      from p have len: "length h' = length h"
        and fr: "\<And>b. b \<notin> set B \<Longrightarrow> b \<noteq> a \<Longrightarrow> h' ! b = h ! b"
        and sh: "obj_info (h' ! a) = obj_info (h ! a)" "is_var (h' ! a) = is_var (h ! a)"
                "length (slots (h' ! a)) = length (slots (h ! a))"
        by (simp_all add: slots_post_def)
      have frA: "\<forall>b. b \<notin> set A \<longrightarrow> h' ! b = h ! b"
        using fr B(2) by simp
      have eq: "onNodeFold (Suc (Suc n)) cmap (VRef a) (h, d) =
          (case rs of
             Inl e \<Rightarrow> Some (Inl e, h', d')
           | Inr xs \<Rightarrow>
               Some (fold_node (the (obj_info (h ! a))) (VRef a)
                       (tested_children (h ! a) xs (h' ! a)) (h', d')))"
        using lt False f by (simp add: onNodeFold_object del: onNodeFold_Suc fold_slots.simps split: sum.splits)
      show ?thesis
      proof (cases rs)
        case (Inl e)
        have "fold_post (Suc n) cmap h A (Inl e) h'"
          using len frA by (simp add: fold_post_def)
        moreover from eq Inl have "onNodeFold (Suc (Suc n)) cmap (VRef a) (h, d) = Some (Inl e, h', d')"
          by simp
        ultimately show ?thesis unfolding VRef by blast
      next
        case (Inr xs)
        with p obtain B' where
          m: "map (slot_at h' a) ?is = xs" and
          n': "nodes_list n h' xs = Some B'" "set B' \<subseteq> set B" "distinct B'"
              "cmap = None \<longrightarrow> list_all (folded n h') xs"
          by (auto simp: slots_post_def)
        have xs: "xs = slots (h' ! a)"
          using m map_slot_at [of h' a] sh(3) by simp
        then have tc: "tested_children (h ! a) xs (h' ! a) = xs"
          by (rule tested_children_same)
        let ?info = "the (obj_info (h ! a))"
        show ?thesis
        proof (cases "d_safe ?info \<and> list_all isValue xs")
          case True
          then obtain r where
            r: "fold_node ?info (VRef a) xs (h', d') = (r, h', True)" "\<And>v'. r = Inr v' \<Longrightarrow> \<exists>x. v' = VNum x"
            by (cases "d_eval ?info") (auto simp: fold_node_def)
          have "fold_post (Suc n) cmap h A r h'"
            using len frA r(2) by (auto simp: fold_post_def)
          moreover from eq Inr tc r(1) have "onNodeFold (Suc (Suc n)) cmap (VRef a) (h, d) = Some (r, h', True)"
            by simp
          ultimately show ?thesis unfolding VRef by blast
        next
          case nf: False
          then have r: "fold_node ?info (VRef a) xs (h', d') = (Inr (VRef a), h', d')"
            by (auto simp: fold_node_def)
          have "nodes (Suc n) h' (VRef a) = Some (a # B')"
            unfolding nodes_ref using lt len sh(2) False n'(1) xs by simp
          moreover have "set (a # B') \<subseteq> set A" "distinct (a # B')"
            using n'(2,3) B(2) dB(2) by auto
          moreover have "cmap = None \<longrightarrow> folded (Suc n) h' (VRef a)"
            using lt len sh(1,2) False n'(4) nf xs by auto
          ultimately have "fold_post (Suc n) cmap h A (Inr (VRef a)) h'"
            using len frA unfolding fold_post_def by blast
          moreover from eq Inr tc r have "onNodeFold (Suc (Suc n)) cmap (VRef a) (h, d) = Some (Inr (VRef a), h', d')"
            by simp
          ultimately show ?thesis unfolding VRef by blast
        qed
      qed
    qed
  next
    case VUndefined
    have "fold_post (Suc n) cmap h A (Inr VUndefined) h"
      using Suc.prems unfolding VUndefined by (simp add: fold_post_def)
    then show ?thesis unfolding VUndefined by simp
  next
    case VNull
    have "fold_post (Suc n) cmap h A (Inr VNull) h"
      using Suc.prems unfolding VNull by (simp add: fold_post_def)
    then show ?thesis unfolding VNull by simp
  next
    case (VNum x)
    have "fold_post (Suc n) cmap h A (Inr (VNum x)) h"
      using Suc.prems unfolding VNum by (simp add: fold_post_def)
    then show ?thesis unfolding VNum by simp
  qed
qed


subsection \<open>Cloning a tree\<close>

lemma nodes_list_ext:
  assumes "\<And>v A. nodes n h v = Some A \<Longrightarrow> nodes n (h @ ext) v = Some A"
  shows "nodes_list n h vs = Some B \<Longrightarrow> nodes_list n (h @ ext) vs = Some B"
proof (induction vs arbitrary: B)
  case Nil
  then show ?case by simp
next
  case (Cons v vs)
  from Cons.prems obtain A B' where
    ab: "nodes n h v = Some A" "nodes_list n h vs = Some B'" "B = A @ B'"
    unfolding nodes_list_Cons by blast
  with Cons.IH [of B'] assms [of v A] show ?case
    unfolding nodes_list_Cons by auto
qed

lemma nodes_ext: "nodes n h v = Some A \<Longrightarrow> nodes n (h @ ext) v = Some A"
proof (induction n arbitrary: v A)
  case 0
  then show ?case by (cases v) auto
next
  case (Suc n)
  show ?case
  proof (cases v)
    case (VRef a)
    from Suc.prems have lt: "a < length h"
      unfolding VRef nodes_ref by simp
    then have a: "(h @ ext) ! a = h ! a" by (simp add: nth_append)
    show ?thesis
      using Suc.prems lt nodes_list_ext [of n h ext, OF Suc.IH]
      unfolding VRef nodes_ref a by auto
  qed (use Suc.prems in auto)
qed

lemma nodes_list_ext': "nodes_list n h vs = Some B \<Longrightarrow> nodes_list n (h @ ext) vs = Some B"
  by (rule nodes_list_ext) (rule nodes_ext)

text \<open>The node object that \<open>cloneNode\<close> makes from an object and its cloned children.\<close>

fun with_slots :: "obj \<Rightarrow> val list \<Rightarrow> obj" where
  "with_slots (Var nm) vs = Var nm"
| "with_slots (Unary nm info v) vs = Unary nm info (hd vs)"
| "with_slots (Binary nm info l r) vs = Binary nm info (hd vs) (hd (tl vs))"
| "with_slots (Call nm info as) vs = Call nm info vs"

lemma slots_with_slots:
  "\<not> is_var ob \<Longrightarrow> length vs = length (slots ob) \<Longrightarrow> slots (with_slots ob vs) = vs"
  by (cases ob; cases vs; cases "tl vs") (auto simp: is_var_def)

lemma is_var_with_slots: "is_var (with_slots ob vs) = is_var ob"
  by (cases ob) (auto simp: is_var_def)

lemma cloneNode_object:
  assumes "a < length h" and "\<not> is_var (h ! a)"
    and "clone_list n (slots (h ! a)) h = Some (vs, h1)" and "length vs = length (slots (h ! a))"
  shows "cloneNode (Suc n) (VRef a) h = Some (alloc (with_slots (h ! a) vs) h1)"
  using assms
  by (cases "h ! a"; cases vs; cases "tl vs") (auto simp: is_var_def)

definition clone_post :: "nat \<Rightarrow> store \<Rightarrow> val \<Rightarrow> store \<Rightarrow> bool" where
  "clone_post n h v' h' =
    (\<exists>ext A'. h' = h @ ext \<and> nodes n h' v' = Some A' \<and> distinct A' \<and> (\<forall>b \<in> set A'. length h \<le> b))"

definition clone_list_post :: "nat \<Rightarrow> store \<Rightarrow> val list \<Rightarrow> store \<Rightarrow> bool" where
  "clone_list_post n h vs' h' =
    (\<exists>ext B'. h' = h @ ext \<and> nodes_list n h' vs' = Some B' \<and> distinct B' \<and> (\<forall>b \<in> set B'. length h \<le> b))"

lemma clone_list_tree:
  assumes P: "\<And>v h A. nodes n h v = Some A \<Longrightarrow>
      \<exists>v' h'. cloneNode (Suc n) v h = Some (v', h') \<and> clone_post n h v' h'"
  shows "nodes_list n h vs = Some B \<Longrightarrow>
     \<exists>vs' h'. clone_list (Suc n) vs h = Some (vs', h') \<and> length vs' = length vs \<and>
              clone_list_post n h vs' h'"
proof (induction vs arbitrary: h B)
  case Nil
  have "clone_list_post n h [] h"
    unfolding clone_list_post_def by (intro exI [of _ "[]"]) simp
  then show ?case by simp
next
  case (Cons v vs)
  from Cons.prems obtain A B2 where
    ab: "nodes n h v = Some A" "nodes_list n h vs = Some B2" "B = A @ B2"
    unfolding nodes_list_Cons by blast
  from P [OF ab(1)] obtain v' h1 where
    c1: "cloneNode (Suc n) v h = Some (v', h1)" and p1: "clone_post n h v' h1"
    by blast
  from p1 obtain ext1 A' where
    e1: "h1 = h @ ext1" "nodes n h1 v' = Some A'" "distinct A'" "\<forall>b \<in> set A'. length h \<le> b"
    unfolding clone_post_def by blast
  have "nodes_list n h1 vs = Some B2"
    unfolding e1(1) using ab(2) by (rule nodes_list_ext')
  from Cons.IH [OF this] obtain vs' h2 where
    c2: "clone_list (Suc n) vs h1 = Some (vs', h2)" "length vs' = length vs" and
    p2: "clone_list_post n h1 vs' h2"
    by blast
  from p2 obtain ext2 B' where
    e2: "h2 = h1 @ ext2" "nodes_list n h2 vs' = Some B'" "distinct B'" "\<forall>b \<in> set B'. length h1 \<le> b"
    unfolding clone_list_post_def by blast
  have n1: "nodes n h2 v' = Some A'"
    unfolding e2(1) using e1(2) by (rule nodes_ext)
  have lt1: "\<forall>b \<in> set A'. b < length h1"
    using nodes_members [OF e1(2)] by blast
  have "clone_list (Suc n) (v # vs) h = Some (v' # vs', h2)"
    using c1 c2(1) by (simp del: cloneNode.simps)
  moreover have "clone_list_post n h (v' # vs') h2"
    unfolding clone_list_post_def
  proof (intro exI conjI)
    show "h2 = h @ (ext1 @ ext2)" using e1(1) e2(1) by simp
    show "nodes_list n h2 (v' # vs') = Some (A' @ B')" using n1 e2(2) by simp
    show "distinct (A' @ B')" using e1(3) e2(3,4) lt1 by fastforce
    show "\<forall>b \<in> set (A' @ B'). length h \<le> b" using e1(1,4) e2(4) by auto
  qed
  ultimately show ?case using c2(2) by simp
qed

lemma cloneNode_tree:
  "nodes n h v = Some A \<Longrightarrow>
     \<exists>v' h'. cloneNode (Suc n) v h = Some (v', h') \<and> clone_post n h v' h'"
proof (induction n arbitrary: v h A)
  case 0
  then have "cloneNode (Suc 0) v h = Some (v, h) \<and> clone_post 0 h v h"
    by (cases v) (auto simp: clone_post_def)
  then show ?case by blast
next
  case (Suc n)
  show ?case
  proof (cases v)
    case (VRef a)
    from Suc.prems have lt: "a < length h"
      unfolding VRef nodes_ref by simp
    show ?thesis
    proof (cases "is_var (h ! a)")
      case True
      then obtain nm where nm: "h ! a = Var nm"
        by (cases "h ! a") (simp_all add: is_var_def)
      with lt have "cloneNode (Suc (Suc n)) (VRef a) h = Some (VRef a, h)" by simp
      moreover have "clone_post (Suc n) h (VRef a) h"
        unfolding clone_post_def nodes_ref using lt True
        by (intro exI [of _ "[]"]) simp
      ultimately show ?thesis unfolding VRef by blast
    next
      case False
      with Suc.prems obtain B where B: "nodes_list n h (slots (h ! a)) = Some B"
        unfolding VRef nodes_ref by auto
      have "\<exists>vs' h'. clone_list (Suc n) (slots (h ! a)) h = Some (vs', h') \<and>
              length vs' = length (slots (h ! a)) \<and> clone_list_post n h vs' h'"
        by (rule clone_list_tree [OF Suc.IH B])
      then obtain vs' h1 where
        c: "clone_list (Suc n) (slots (h ! a)) h = Some (vs', h1)"
           "length vs' = length (slots (h ! a))" and
        p: "clone_list_post n h vs' h1"
        by blast
      from p obtain ext B' where
        e: "h1 = h @ ext" "nodes_list n h1 vs' = Some B'" "distinct B'" "\<forall>b \<in> set B'. length h \<le> b"
        unfolding clone_list_post_def by blast
      let ?ob = "with_slots (h ! a) vs'"
      have cl: "cloneNode (Suc (Suc n)) (VRef a) h = Some (VRef (length h1), h1 @ [?ob])"
        using cloneNode_object [OF lt False c] by (simp add: alloc_def)
      have ltB: "\<forall>b \<in> set B'. b < length h1"
        using nodes_list_members' [OF e(2)] by blast
      have "nodes_list n (h1 @ [?ob]) vs' = Some B'"
        using e(2) by (rule nodes_list_ext')
      then have "nodes (Suc n) (h1 @ [?ob]) (VRef (length h1)) = Some (length h1 # B')"
        unfolding nodes_ref using False c(2)
        by (simp add: is_var_with_slots slots_with_slots)
      moreover have "distinct (length h1 # B')" using e(3) ltB by auto
      moreover have "\<forall>b \<in> set (length h1 # B'). length h \<le> b" using e(1,4) by simp
      moreover have "h1 @ [?ob] = h @ (ext @ [?ob])" using e(1) by simp
      ultimately have "clone_post (Suc n) h (VRef (length h1)) (h1 @ [?ob])"
        unfolding clone_post_def by blast
      with cl show ?thesis unfolding VRef by blast
    qed
  next
    case VUndefined
    have "clone_post (Suc n) h VUndefined h"
      unfolding clone_post_def by (intro exI [of _ "[]"]) simp
    then show ?thesis unfolding VUndefined by simp
  next
    case VNull
    have "clone_post (Suc n) h VNull h"
      unfolding clone_post_def by (intro exI [of _ "[]"]) simp
    then show ?thesis unfolding VNull by simp
  next
    case (VNum x)
    have "clone_post (Suc n) h (VNum x) h"
      unfolding clone_post_def by (intro exI [of _ "[]"]) simp
    then show ?thesis unfolding VNum by simp
  qed
qed



lemmas tokenize_simps = tokenize_def Category_def charCode_def digit_branch_def dot_before_def
  is_punct_char_def is_ident_char_def run_length_def kMaxOperatorLen_def newToken_def
  match_value_def match_mantissa_def match_exponent_def is_digit_char_def parseFloat_def
  mantissa_val_def exponent_val_def digits_val_def digit_val_def Let_def

section \<open>Claims about the environment and the tokenizer\<close>

text \<open>
  Claim C2: the default registry has Function definitions \<open>isbetween\<close>, \<open>clamp\<close>
  and \<open>isequal\<close>.  The construction of the exported environment registers none of
  the three names: \<open>get\<close> answers \<open>null\<close> for each of them, whatever the host's
  Math functions are.
\<close>

theorem xex_lacks_isbetween_clamp_isequal:
  "\<exists>e. xex M = Inr e \<and> get e ''isbetween'' = None \<and> get e ''clamp'' = None \<and>
       get e ''isequal'' = None"
proof -
  from xex_lang [of M] obtain e
    where e: "xex M = Inr e" "lang e = find_defn (map call_defn (xex_calls M))"
    by blast
  show ?thesis
    by (simp add: e get_def xex_calls_def builder_sel defn_sel)
qed

text \<open>
  Claim C3: \<open>freeze()\<close> is idempotent, a second \<open>freeze()\<close> on a frozen registry
  succeeds.  In the code the first \<open>freeze()\<close> of a registry succeeds and leaves it
  frozen, and every later \<open>freeze()\<close> on that registry ends in the host's TypeError:
  \<open>freeze()\<close> has no test of \<open>this.frozen\<close>, unlike \<open>add\<close> and \<open>del\<close>, and its
  assignment \<open>this.frozen = true\<close> hits the object that the first call has frozen.
\<close>

theorem freeze_twice_throws:
  "\<not> sealed this \<Longrightarrow>
     freeze this = Inr (this \<lparr> frozen := True, sealed := True \<rparr>) \<and>
     frozen (this \<lparr> frozen := True, sealed := True \<rparr>) \<and>
     freeze (this \<lparr> frozen := True, sealed := True \<rparr>) = Inl TypeError"
  by (simp add: freeze_def)

theorem freeze_twice_throws_witness:
  "\<not> sealed new_Environment \<and>
   freeze new_Environment = Inr (new_Environment \<lparr> frozen := True, sealed := True \<rparr>) \<and>
   frozen (new_Environment \<lparr> frozen := True, sealed := True \<rparr>) \<and>
   freeze (new_Environment \<lparr> frozen := True, sealed := True \<rparr>) = Inl TypeError"
  using freeze_twice_throws [of new_Environment] by (simp add: new_Environment_def)

text \<open>
  The failing input: a fresh environment frozen twice in a row, as in
  \<open>env.freeze().freeze()\<close>; the second call throws the TypeError.
\<close>

theorem freeze_idempotent_counterexample:
  "and_then (freeze new_Environment) freeze = Inl TypeError"
  by (simp add: freeze_def new_Environment_def and_then_def)

text \<open>
  Claim C6: when the digit branch is reached at index \<open>i\<close>, the last token is the
  single dot and the character before the digit is that dot, the branch discards the
  token and scans the literal from the dot: the one new token is a value token at
  position \<open>i - 1\<close> whose text is the dot, the digits from \<open>i\<close> and the exponent, if
  any, and the index moves past that text.  So \<open>.5\<close> is one value token, and
  \<open>1 + .5\<close> is three tokens, in every environment.
\<close>

theorem digit_branch_rescans_from_dot:
  "(i < length input \<and> Category (charCode (input ! i)) = kCharDigit \<and> dot_before input i tokens \<longrightarrow>
      (\<exists>ds x. ds = takeWhile is_digit_char (drop i input) \<and> ds \<noteq> [] \<and>
              x = match_exponent (dropWhile is_digit_char (drop i input)) \<and>
              digit_branch input i tokens =
                Inr (i - 1 + length (''.'' @ ds @ x),
                     butlast tokens @
                       [newToken kTokenValue (int (i - 1)) (''.'' @ ds @ x)
                          (Some (parseFloat (''.'' @ ds @ x)))]))) \<and>
   tokenize env ''.5'' = Inr [newToken kTokenValue 0 ''.5'' (Some (Fin (1 / 2)))] \<and>
   tokenize env ''1 + .5'' =
     Inr [newToken kTokenValue 0 ''1'' (Some (Fin 1)),
          newToken kTokenPunct 2 ''+'' None,
          newToken kTokenValue 4 ''.5'' (Some (Fin (1 / 2)))]"
proof (intro conjI impI)
  assume a: "i < length input \<and> Category (charCode (input ! i)) = kCharDigit \<and> dot_before input i tokens"
  then have i: "0 < i" "input ! (i - 1) = CHR ''.''"
    by (simp_all add: dot_before_def)
  from a have "i - 1 < length input" by arith
  with a have d: "drop (i - 1) input = CHR ''.'' # input ! i # drop (Suc i) input"
    using i Cons_nth_drop_Suc [of "i - 1" input] Cons_nth_drop_Suc [of i input] by simp
  have di: "drop i input = input ! i # drop (Suc i) input"
    using a Cons_nth_drop_Suc [of i input] by simp
  have dg: "is_digit_char (input ! i)"
    using a by (simp add: Category_digit)
  have nd: "\<not> is_digit_char CHR ''.''"
    by (simp add: is_digit_char_def charCode_def)
  have "reValue_exec (drop (i - 1) input) =
      Some (''.'' @ takeWhile is_digit_char (drop i input) @
            match_exponent (dropWhile is_digit_char (drop i input)))"
    unfolding d di using dg nd by (simp add: match_value_def match_mantissa_def)
  moreover have "takeWhile is_digit_char (drop i input) \<noteq> []"
    unfolding di using dg by simp
  ultimately show "\<exists>ds x. ds = takeWhile is_digit_char (drop i input) \<and> ds \<noteq> [] \<and>
      x = match_exponent (dropWhile is_digit_char (drop i input)) \<and>
      digit_branch input i tokens =
        Inr (i - 1 + length (''.'' @ ds @ x),
             butlast tokens @
               [newToken kTokenValue (int (i - 1)) (''.'' @ ds @ x)
                  (Some (parseFloat (''.'' @ ds @ x)))])"
    using a by (simp add: digit_branch_def Let_def)
next
  show "tokenize env ''.5'' = Inr [newToken kTokenValue 0 ''.5'' (Some (Fin (1 / 2)))]"
    by (simp add: tokenize_simps)
next
  show "tokenize env ''1 + .5'' =
     Inr [newToken kTokenValue 0 ''1'' (Some (Fin 1)),
          newToken kTokenPunct 2 ''+'' None,
          newToken kTokenValue 4 ''.5'' (Some (Fin (1 / 2)))]"
    by (simp add: tokenize_simps)
qed

theorem digit_branch_rescans_from_dot_witness:
  "digit_branch ''1 + .5'' 5
     [newToken kTokenValue 0 ''1'' (Some (Fin 1)), newToken kTokenPunct 2 ''+'' None,
      newToken kTokenPunct 4 ''.'' None] =
   Inr (6, [newToken kTokenValue 0 ''1'' (Some (Fin 1)), newToken kTokenPunct 2 ''+'' None,
            newToken kTokenValue 4 ''.5'' (Some (Fin (1 / 2)))])"
  using digit_branch_rescans_from_dot [of 5 "''1 + .5''"
     "[newToken kTokenValue 0 ''1'' (Some (Fin 1)), newToken kTokenPunct 2 ''+'' None,
       newToken kTokenPunct 4 ''.'' None]" new_Environment]
  by (simp add: tokenize_simps)

section \<open>Evaluation of the definitions\<close>

lemmas env_simps = get_def xex_calls_def builder_sel defn_sel num_or_def str_or_def falsy_def

lemmas node_simps = Expression_fold_def Expression_clone_def new_Expression_def checkDirty_def
  fold_node_def slot_at_def set_slot_def alloc_def defn_sel builder_sel fn2_def arg_def is_var_def
  isValue_def Let_def

lemmas exp_simps = exp_def tokenize_simps parse_simps parseExpression_def open_call_def node_simps

lemmas compile_simps = Expression_eval_def Expression_compile_def onFuncCompile_def compile_var_def
  accessProp_def is_prop_ident_def is_word_char_def is_digit_char_def charCode_def
  throwExpressionError_def bind_result_def



section \<open>\<open>Math.min\<close>, \<open>Math.max\<close> and \<open>minmaxval\<close>\<close>

lemma isNaN_iff: "isNaN x \<longleftrightarrow> x = NaN"
  by (cases x) simp_all

lemma min2_PInf: "\<not> isNaN x \<Longrightarrow> min2 PInf x = x"
  by (cases x) (simp_all add: min2_def js_lt_def rank_less_def)

lemma max2_NInf: "\<not> isNaN x \<Longrightarrow> max2 NInf x = x"
  by (cases x) (simp_all add: max2_def js_lt_def rank_less_def)

lemma min2_cases: "\<not> isNaN x \<Longrightarrow> \<not> isNaN y \<Longrightarrow> min2 x y = x \<or> min2 x y = y"
  by (simp add: min2_def)

lemma max2_cases: "\<not> isNaN x \<Longrightarrow> \<not> isNaN y \<Longrightarrow> max2 x y = x \<or> max2 x y = y"
  by (simp add: max2_def)

lemma min2_lower:
  assumes "\<not> isNaN x" "\<not> isNaN y" "\<not> js_lt (min2 x y) z"
  shows "\<not> js_lt x z \<and> \<not> js_lt y z"
  using assms
  by (cases "isNaN z") (auto simp: min2_def js_lt_def rank_less_def split: if_splits)

lemma max2_upper:
  assumes "\<not> isNaN x" "\<not> isNaN y" "\<not> js_lt z (max2 x y)"
  shows "\<not> js_lt z x \<and> \<not> js_lt z y"
  using assms
  by (cases "isNaN z") (auto simp: max2_def js_lt_def rank_less_def split: if_splits)

lemma foldl_min2:
  "\<not> isNaN x \<Longrightarrow> \<not> list_ex isNaN ys \<Longrightarrow>
     foldl min2 x ys \<in> set (x # ys) \<and> \<not> isNaN (foldl min2 x ys) \<and>
     (\<forall>y \<in> set (x # ys). \<not> js_lt y (foldl min2 x ys))"
proof (induction ys arbitrary: x)
  case Nil
  then show ?case by (simp add: js_lt_def rank_less_def)
next
  case (Cons y ys)
  then have n: "\<not> isNaN y" "\<not> list_ex isNaN ys" by simp_all
  from min2_cases [OF Cons.prems(1) n(1)] have m: "\<not> isNaN (min2 x y)" "min2 x y = x \<or> min2 x y = y"
    using Cons.prems(1) n(1) by auto
  from Cons.IH [OF m(1) n(2)] have ih:
    "foldl min2 (min2 x y) ys \<in> set (min2 x y # ys)" "\<not> isNaN (foldl min2 (min2 x y) ys)"
    "\<forall>z \<in> set (min2 x y # ys). \<not> js_lt z (foldl min2 (min2 x y) ys)"
    by simp_all
  from ih(3) have "\<not> js_lt (min2 x y) (foldl min2 (min2 x y) ys)" by simp
  have low: "\<not> js_lt x (foldl min2 (min2 x y) ys) \<and> \<not> js_lt y (foldl min2 (min2 x y) ys)"
    using ih(3) by (intro min2_lower [OF Cons.prems(1) n(1)]) simp
  show ?case
    using ih m(2) low by auto
qed

lemma foldl_max2:
  "\<not> isNaN x \<Longrightarrow> \<not> list_ex isNaN ys \<Longrightarrow>
     foldl max2 x ys \<in> set (x # ys) \<and> \<not> isNaN (foldl max2 x ys) \<and>
     (\<forall>y \<in> set (x # ys). \<not> js_lt (foldl max2 x ys) y)"
proof (induction ys arbitrary: x)
  case Nil
  then show ?case by (simp add: js_lt_def rank_less_def)
next
  case (Cons y ys)
  then have n: "\<not> isNaN y" "\<not> list_ex isNaN ys" by simp_all
  from max2_cases [OF Cons.prems(1) n(1)] have m: "\<not> isNaN (max2 x y)" "max2 x y = x \<or> max2 x y = y"
    using Cons.prems(1) n(1) by auto
  from Cons.IH [OF m(1) n(2)] have ih:
    "foldl max2 (max2 x y) ys \<in> set (max2 x y # ys)" "\<not> isNaN (foldl max2 (max2 x y) ys)"
    "\<forall>z \<in> set (max2 x y # ys). \<not> js_lt (foldl max2 (max2 x y) ys) z"
    by simp_all
  have low: "\<not> js_lt (foldl max2 (max2 x y) ys) x \<and> \<not> js_lt (foldl max2 (max2 x y) ys) y"
    using ih(3) by (intro max2_upper [OF Cons.prems(1) n(1)]) simp
  show ?case
    using ih m(2) low by auto
qed

lemma foldl_min2_NaN: "foldl min2 NaN ys = NaN"
  by (induction ys) (simp_all add: min2_def)

lemma foldl_max2_NaN: "foldl max2 NaN ys = NaN"
  by (induction ys) (simp_all add: max2_def)

lemma foldl_min2_any: "list_ex isNaN ys \<Longrightarrow> foldl min2 x ys = NaN"
proof (induction ys arbitrary: x)
  case (Cons y ys)
  show ?case
  proof (cases "isNaN y")
    case True
    then have "min2 x y = NaN" by (simp add: min2_def)
    then show ?thesis by (simp add: foldl_min2_NaN)
  next
    case False
    with Cons show ?thesis by simp
  qed
qed simp

lemma foldl_max2_any: "list_ex isNaN ys \<Longrightarrow> foldl max2 x ys = NaN"
proof (induction ys arbitrary: x)
  case (Cons y ys)
  show ?case
  proof (cases "isNaN y")
    case True
    then have "max2 x y = NaN" by (simp add: max2_def)
    then show ?thesis by (simp add: foldl_max2_NaN)
  next
    case False
    with Cons show ?thesis by simp
  qed
qed simp

text \<open>The two loops of \<open>minmaxval\<close>.\<close>

lemma skip_nan_all: "list_all isNaN xs \<Longrightarrow> skip_nan x xs = (if xs = [] then x else NaN, [])"
  by (induction xs arbitrary: x) (auto simp: isNaN_iff)

lemma skip_nan_some:
  "\<not> list_all isNaN xs \<Longrightarrow>
     skip_nan x xs = (hd (filter (\<lambda>a. \<not> isNaN a) xs), tl (dropWhile isNaN xs)) \<and>
     filter (\<lambda>a. \<not> isNaN a) xs =
       hd (filter (\<lambda>a. \<not> isNaN a) xs) # filter (\<lambda>a. \<not> isNaN a) (tl (dropWhile isNaN xs))"
  by (induction xs arbitrary: x) auto

lemma combine_vals_foldl:
  "combine_vals op x ys = foldl op x (filter (\<lambda>a. \<not> isNaN a) ys)"
  by (induction ys arbitrary: x) simp_all


lemma foldl_pair_min:
  "\<not> isNaN x \<Longrightarrow> \<not> list_ex isNaN ys \<Longrightarrow> foldl (\<lambda>a b. Math_min [a, b]) x ys = foldl min2 x ys"
proof (induction ys arbitrary: x)
  case (Cons y ys)
  have "\<not> isNaN (min2 x y)"
    using Cons.prems by (simp add: min2_def)
  with Cons show ?case
    by (simp add: Math_min_def min2_PInf)
qed simp

lemma foldl_pair_max:
  "\<not> isNaN x \<Longrightarrow> \<not> list_ex isNaN ys \<Longrightarrow> foldl (\<lambda>a b. Math_max [a, b]) x ys = foldl max2 x ys"
proof (induction ys arbitrary: x)
  case (Cons y ys)
  have "\<not> isNaN (max2 x y)"
    using Cons.prems by (simp add: max2_def)
  with Cons show ?case
    by (simp add: Math_max_def max2_NInf)
qed simp

lemma minmaxval_all_NaN: "list_all isNaN xs \<Longrightarrow> minmaxval op xs = NaN"
  by (simp add: minmaxval_def skip_nan_all)

lemma minmaxval_filter:
  assumes "\<not> list_all isNaN xs"
  shows "minmaxval Math_min xs = Math_min (filter (\<lambda>a. \<not> isNaN a) xs)"
    and "minmaxval Math_max xs = Math_max (filter (\<lambda>a. \<not> isNaN a) xs)"
proof -
  let ?x = "hd (filter (\<lambda>a. \<not> isNaN a) xs)"
  let ?r = "filter (\<lambda>a. \<not> isNaN a) (tl (dropWhile isNaN xs))"
  from skip_nan_some [OF assms, of NaN] have s: "skip_nan NaN xs = (?x, tl (dropWhile isNaN xs))"
    and f: "filter (\<lambda>a. \<not> isNaN a) xs = ?x # ?r"
    by simp_all
  have "?x \<in> set (filter (\<lambda>a. \<not> isNaN a) xs)"
    by (subst (2) f) simp
  then have x: "\<not> isNaN ?x" by simp
  have r: "\<not> list_ex isNaN ?r" by (simp add: list_ex_iff)
  have "minmaxval Math_min xs = foldl min2 ?x ?r"
    unfolding minmaxval_def s by (simp only: prod.case combine_vals_foldl foldl_pair_min [OF x r])
  also have "\<dots> = Math_min (?x # ?r)"
    by (simp add: Math_min_def min2_PInf [OF x])
  finally show "minmaxval Math_min xs = Math_min (filter (\<lambda>a. \<not> isNaN a) xs)"
    using f by simp
  have "minmaxval Math_max xs = foldl max2 ?x ?r"
    unfolding minmaxval_def s by (simp only: prod.case combine_vals_foldl foldl_pair_max [OF x r])
  also have "\<dots> = Math_max (?x # ?r)"
    by (simp add: Math_max_def max2_NInf [OF x])
  finally show "minmaxval Math_max xs = Math_max (filter (\<lambda>a. \<not> isNaN a) xs)"
    using f by simp
qed

lemma Math_min_least:
  assumes "ys \<noteq> []" "\<not> list_ex isNaN ys"
  shows "Math_min ys \<in> set ys \<and> \<not> isNaN (Math_min ys) \<and> (\<forall>y \<in> set ys. \<not> js_lt y (Math_min ys))"
proof -
  from assms obtain y ys' where ys: "ys = y # ys'" by (cases ys) auto
  with assms have "\<not> isNaN y" "\<not> list_ex isNaN ys'" by simp_all
  from foldl_min2 [OF this] show ?thesis
    unfolding ys Math_min_def using \<open>\<not> isNaN y\<close> by (simp add: min2_PInf)
qed

lemma Math_max_greatest:
  assumes "ys \<noteq> []" "\<not> list_ex isNaN ys"
  shows "Math_max ys \<in> set ys \<and> \<not> isNaN (Math_max ys) \<and> (\<forall>y \<in> set ys. \<not> js_lt (Math_max ys) y)"
proof -
  from assms obtain y ys' where ys: "ys = y # ys'" by (cases ys) auto
  with assms have "\<not> isNaN y" "\<not> list_ex isNaN ys'" by simp_all
  from foldl_max2 [OF this] show ?thesis
    unfolding ys Math_max_def using \<open>\<not> isNaN y\<close> by (simp add: max2_NInf)
qed

section \<open>Claims about the parser\<close>

text \<open>
  Claim C1: \<open>cond ? a : b\<close> parses against the default registry into a conditional
  node of its own, and only the selected branch is evaluated.  The code has no
  conditional: the default environment defines neither \<open>?\<close> nor \<open>:\<close>, the parser
  has no case for them, and \<open>exp\<close> throws \<open>Unexpected token '?'\<close> at the position of
  the question mark, with or without folding, whatever the host is.  The inputs are
  those of the test "should handle ternary if-else (basic)".
\<close>

theorem exp_conditional_is_unexpected_token:
  "\<exists>e. xex M = Inr e \<and> get e ''?'' = None \<and> get e '':'' = None \<and>
     exp (Suc n) S e [] ''0   ? 2 : 4'' \<lparr> noFolding = False, varsWhitelist = None \<rparr> =
       Some (Inl (ExpressionError (''Unexpected token '' @ [CHR 0x27] @ ''?'' @ [CHR 0x27]) 4)) \<and>
     exp (Suc n) S e [] ''1   ? 2 : 4'' \<lparr> noFolding = False, varsWhitelist = None \<rparr> =
       Some (Inl (ExpressionError (''Unexpected token '' @ [CHR 0x27] @ ''?'' @ [CHR 0x27]) 4)) \<and>
     exp (Suc n) S e [] ''NaN ? 2 : 4'' \<lparr> noFolding = False, varsWhitelist = None \<rparr> =
       Some (Inl (ExpressionError (''Unexpected token '' @ [CHR 0x27] @ ''?'' @ [CHR 0x27]) 4)) \<and>
     exp (Suc n) S e [] ''0 ? 2 : 4'' \<lparr> noFolding = True, varsWhitelist = None \<rparr> =
       Some (Inl (ExpressionError (''Unexpected token '' @ [CHR 0x27] @ ''?'' @ [CHR 0x27]) 2))"
proof -
  from xex_lang [of M] obtain e
    where e: "xex M = Inr e" and L: "lang e = find_defn (map call_defn (xex_calls M))"
    by blast
  have "get e ''?'' = None" "get e '':'' = None"
    by (simp_all add: L env_simps)
  moreover have
    "exp (Suc n) S e [] ''0   ? 2 : 4'' \<lparr> noFolding = False, varsWhitelist = None \<rparr> =
       Some (Inl (ExpressionError (''Unexpected token '' @ [CHR 0x27] @ ''?'' @ [CHR 0x27]) 4))"
    by (simp add: exp_simps L env_simps)
  moreover have
    "exp (Suc n) S e [] ''1   ? 2 : 4'' \<lparr> noFolding = False, varsWhitelist = None \<rparr> =
       Some (Inl (ExpressionError (''Unexpected token '' @ [CHR 0x27] @ ''?'' @ [CHR 0x27]) 4))"
    by (simp add: exp_simps L env_simps)
  moreover have
    "exp (Suc n) S e [] ''NaN ? 2 : 4'' \<lparr> noFolding = False, varsWhitelist = None \<rparr> =
       Some (Inl (ExpressionError (''Unexpected token '' @ [CHR 0x27] @ ''?'' @ [CHR 0x27]) 4))"
    by (simp add: exp_simps L env_simps)
  moreover have
    "exp (Suc n) S e [] ''0 ? 2 : 4'' \<lparr> noFolding = True, varsWhitelist = None \<rparr> =
       Some (Inl (ExpressionError (''Unexpected token '' @ [CHR 0x27] @ ''?'' @ [CHR 0x27]) 2))"
    by (simp add: exp_simps L env_simps)
  ultimately show ?thesis using e by blast
qed


section \<open>Claims about folding, cloning and compiling\<close>

text \<open>
  Claim C7: folding is idempotent.  For an expression whose root is a tree in the
  store (no node object is reached twice; variables may be shared, as the parser
  shares them), \<open>fold()\<close> without substitutions returns when the depth bound covers
  the tree; and if it did not throw, a second \<open>fold()\<close> without substitutions does
  not throw, and leaves the store and the object, with its root and its clear
  \<open>dirty\<close> flag, as they are.
\<close>

theorem fold_twice_is_noop:
  assumes "nodes n h (e_root e) = Some A" and "distinct A"
  shows "\<exists>r h1 e1. Expression_fold (Suc n) None (h, e) = Some (r, h1, e1) \<and>
           (r = Inr () \<longrightarrow>
              Expression_fold (Suc n) None (h1, e1) = Some (Inr (), h1, e1) \<and> \<not> e_dirty e1)"
proof -
  from onNodeFold_tree [OF assms, of None "e_dirty e"] obtain r h' d' where
    f: "onNodeFold (Suc n) None (e_root e) (h, e_dirty e) = Some (r, h', d')"
    and p: "fold_post n None h A r h'"
    by blast
  show ?thesis
  proof (cases r)
    case (Inl err)
    with f show ?thesis by (simp add: Expression_fold_def del: onNodeFold_Suc)
  next
    case (Inr v')
    with p have "folded n h' v'" by (auto simp: fold_post_def)
    then have "onNodeFold (Suc n) None v' (h', False) = Some (Inr v', h', False)"
      by (rule onNodeFold_folded)
    with f Inr show ?thesis
      by (simp add: Expression_fold_def checkDirty_def del: onNodeFold_Suc)
  qed
qed

theorem fold_twice_is_noop_witness:
  "Expression_fold (Suc (Suc (Suc 0))) None
     ([Var ''x'',
       Binary ''+'' (binary_defn (un_op ''+'' 6 False (fn2 js_add) (Some ''@1 + @2''))) (VRef 0) (VRef 2),
       Binary ''*'' (binary_defn (un_op ''*'' 5 False (fn2 js_mul) (Some ''@1 * @2''))) (VNum (Fin 2)) (VNum (Fin 3))],
      new_Expression new_Environment (VRef 1) :: unit Expression) =
   Some (Inr (),
     [Var ''x'',
       Binary ''+'' (binary_defn (un_op ''+'' 6 False (fn2 js_add) (Some ''@1 + @2''))) (VRef 0) (VNum (Fin 6)),
       Binary ''*'' (binary_defn (un_op ''*'' 5 False (fn2 js_mul) (Some ''@1 * @2''))) (VNum (Fin 2)) (VNum (Fin 3))],
      new_Expression new_Environment (VRef 1)) \<and>
   Expression_fold (Suc (Suc (Suc 0))) None
     ([Var ''x'',
       Binary ''+'' (binary_defn (un_op ''+'' 6 False (fn2 js_add) (Some ''@1 + @2''))) (VRef 0) (VNum (Fin 6)),
       Binary ''*'' (binary_defn (un_op ''*'' 5 False (fn2 js_mul) (Some ''@1 * @2''))) (VNum (Fin 2)) (VNum (Fin 3))],
      new_Expression new_Environment (VRef 1) :: unit Expression) =
   Some (Inr (),
     [Var ''x'',
       Binary ''+'' (binary_defn (un_op ''+'' 6 False (fn2 js_add) (Some ''@1 + @2''))) (VRef 0) (VNum (Fin 6)),
       Binary ''*'' (binary_defn (un_op ''*'' 5 False (fn2 js_mul) (Some ''@1 * @2''))) (VNum (Fin 2)) (VNum (Fin 3))],
      new_Expression new_Environment (VRef 1))"
  using fold_twice_is_noop [of "Suc (Suc 0)"
     "[Var ''x'',
       Binary ''+'' (binary_defn (un_op ''+'' 6 False (fn2 js_add) (Some ''@1 + @2''))) (VRef 0) (VRef 2),
       Binary ''*'' (binary_defn (un_op ''*'' 5 False (fn2 js_mul) (Some ''@1 * @2''))) (VNum (Fin 2)) (VNum (Fin 3))]"
     "new_Expression new_Environment (VRef 1) :: unit Expression" "[1, 2]"]
  by (simp add: Expression_fold_def new_Expression_def checkDirty_def fold_node_def slot_at_def
        set_slot_def defn_sel builder_sel fn2_def arg_def is_var_def isValue_def
        js_mul_def fin_of_def Let_def)

text \<open>
  Claim C8: folding a clone does not touch the original.  For an expression whose
  root is in the store, partially folded or not, \<open>clone()\<close> returns and leaves every
  object of the store as it was, the new objects being added behind them; and
  \<open>fold(cmap)\<close> on the clone returns (with a result or an error) and leaves every
  object that existed before the clone as it was, for every \<open>cmap\<close>.  So the root of
  the original and all that it reaches are unchanged.
\<close>

theorem clone_fold_keeps_original:
  assumes "nodes n h (e_root e) = Some A"
  shows "\<exists>h1 c. Expression_clone (Suc n) (h, e) = Some (h1, c) \<and> take (length h) h1 = h \<and>
           (\<exists>r h2 c2. Expression_fold (Suc n) cmap (h1, c) = Some (r, h2, c2) \<and>
                       take (length h) h2 = h)"
proof -
  from cloneNode_tree [OF assms] obtain v' h' where
    c: "cloneNode (Suc n) (e_root e) h = Some (v', h')" and p: "clone_post n h v' h'"
    by blast
  from p obtain ext A' where
    h': "h' = h @ ext" and n': "nodes n h' v' = Some A'" and d: "distinct A'"
    and fresh: "\<forall>b \<in> set A'. length h \<le> b"
    unfolding clone_post_def by blast
  let ?c = "new_Expression (e_env e) v' :: 'a Expression"
  have r: "nodes n h' (e_root ?c) = Some A'"
    using n' by (cases "v' = VUndefined") (auto simp: new_Expression_def)
  from onNodeFold_tree [OF r d, of cmap "e_dirty ?c"] obtain r h2 d' where
    f: "onNodeFold (Suc n) cmap (e_root ?c) (h', e_dirty ?c) = Some (r, h2, d')"
    and fp: "fold_post n cmap h' A' r h2"
    by blast
  from fp have len: "length h2 = length h'" and fr: "\<forall>b. b \<notin> set A' \<longrightarrow> h2 ! b = h' ! b"
    by (simp_all add: fold_post_def)
  have "take (length h) h2 = h"
  proof (rule nth_equalityI)
    show "length (take (length h) h2) = length h"
      using len h' by simp
  next
    fix i
    assume "i < length (take (length h) h2)"
    then have i: "i < length h" by simp
    with fresh have "i \<notin> set A'" by auto
    with fr have "h2 ! i = h' ! i" by simp
    with i h' show "take (length h) h2 ! i = h ! i"
      by (simp add: nth_append)
  qed
  moreover have "\<exists>r' c2. Expression_fold (Suc n) cmap (h', ?c) = Some (r', h2, c2)"
    using f by (cases r) (simp_all add: Expression_fold_def del: onNodeFold_Suc)
  ultimately show ?thesis
    using c h' by (simp add: Expression_clone_def) blast
qed


theorem clone_fold_keeps_original_witness:
  "Expression_clone (Suc (Suc (Suc 0)))
     ([Var ''x'',
       Binary ''+'' (binary_defn (un_op ''+'' 6 False (fn2 js_add) (Some ''@1 + @2''))) (VRef 0) (VNum (Fin 6))],
      new_Expression new_Environment (VRef 1) :: unit Expression) =
   Some ([Var ''x'',
       Binary ''+'' (binary_defn (un_op ''+'' 6 False (fn2 js_add) (Some ''@1 + @2''))) (VRef 0) (VNum (Fin 6)),
       Binary ''+'' (binary_defn (un_op ''+'' 6 False (fn2 js_add) (Some ''@1 + @2''))) (VRef 0) (VNum (Fin 6))],
      new_Expression new_Environment (VRef 2)) \<and>
   Expression_fold (Suc (Suc (Suc 0))) (Some [''x'' \<mapsto> Fin 1])
     ([Var ''x'',
       Binary ''+'' (binary_defn (un_op ''+'' 6 False (fn2 js_add) (Some ''@1 + @2''))) (VRef 0) (VNum (Fin 6)),
       Binary ''+'' (binary_defn (un_op ''+'' 6 False (fn2 js_add) (Some ''@1 + @2''))) (VRef 0) (VNum (Fin 6))],
      new_Expression new_Environment (VRef 2) :: unit Expression) =
   Some (Inr (),
     [Var ''x'',
       Binary ''+'' (binary_defn (un_op ''+'' 6 False (fn2 js_add) (Some ''@1 + @2''))) (VRef 0) (VNum (Fin 6)),
       Binary ''+'' (binary_defn (un_op ''+'' 6 False (fn2 js_add) (Some ''@1 + @2''))) (VNum (Fin 1)) (VNum (Fin 6))],
      new_Expression new_Environment (VNum (Fin 7)))"
  using clone_fold_keeps_original [of "Suc (Suc 0)"
     "[Var ''x'',
       Binary ''+'' (binary_defn (un_op ''+'' 6 False (fn2 js_add) (Some ''@1 + @2''))) (VRef 0) (VNum (Fin 6))]"
     "new_Expression new_Environment (VRef 1) :: unit Expression" "[1]" "Some [''x'' \<mapsto> Fin 1]"]
  by (simp add: node_simps js_add_def)




text \<open>
  Claim C10: \<open>compile(a)\<close> with an \<open>a\<close> that is not an array throws the
  ExpressionError \<open>Argument 'args' must be an array, not '<typeof a>'\<close>, for every
  expression and every depth bound, and without a call of the host's \<open>Function\<close>
  constructor (the result does not depend on the host).  With an array the
  compilation goes on: for the expression \<open>x\<close> and the array \<open>["x"]\<close> the result is
  what the host's \<open>Function\<close> makes of the source text.
\<close>

theorem compile_rejects_non_array:
  "(\<not> isArray a \<longrightarrow>
      Expression_compile n H st a =
        Some (Inl (ExpressionError
          (''Argument '' @ [CHR 0x27] @ ''args'' @ [CHR 0x27] @ '' must be an array, not '' @
           [CHR 0x27] @ typeof a @ [CHR 0x27]) (- 1)))) \<and>
   Expression_compile (Suc m) H ([Var ''x''], new_Expression env (VRef 0)) (JSArray [''x'']) =
     (case h_Function H
             (''return function(_'' @ h_String H (Fin 1) @ '') {'' @ [CHR 0x0A] @
              ''  return _'' @ h_String H (Fin 1) @ '';'' @ [CHR 0x0A] @ ''}'' @ [CHR 0x0A])
             (func env) of
        Inl msg \<Rightarrow> Some (Inl (ExpressionError (msg @ '': _'' @ h_String H (Fin 1)) (- 1)))
      | Inr f \<Rightarrow> Some (Inr f))"
  by (simp add: compile_simps new_Expression_def split: sum.splits)

theorem compile_rejects_non_array_witness:
  "\<not> isArray (JSString ''x'') \<and>
   Expression_compile (Suc 0)
     \<lparr> h_Math = (\<lambda>name xs. NaN), h_String = (\<lambda>x. ''0''), h_Function = (\<lambda>src fs. Inr src) \<rparr>
     ([Var ''x''], new_Expression new_Environment (VRef 0)) (JSString ''x'') =
   Some (Inl (ExpressionError
     (''Argument '' @ [CHR 0x27] @ ''args'' @ [CHR 0x27] @ '' must be an array, not '' @
      [CHR 0x27] @ ''string'' @ [CHR 0x27]) (- 1)))"
  using compile_rejects_non_array [of "JSString ''x''" "Suc 0"
     "\<lparr> h_Math = (\<lambda>name xs. NaN), h_String = (\<lambda>x. ''0''), h_Function = (\<lambda>src fs. Inr src) \<rparr>"
     "([Var ''x''], new_Expression new_Environment (VRef 0))" 0 new_Environment]
  by simp

section \<open>Claims about the built-in functions\<close>

text \<open>
  Claim C9: \<open>minval\<close> and \<open>maxval\<close> skip the NaN arguments.  They return NaN when
  every argument is NaN, and otherwise what \<open>Math.min\<close> and \<open>Math.max\<close> return for
  the arguments that are not NaN: one of these arguments, such that none of them is
  smaller (for \<open>maxval\<close>: larger).  \<open>min\<close> and \<open>max\<close> return NaN as soon as one
  argument is NaN.  The four names are registered with these callbacks and with at
  least two arguments; the statement holds for every number of arguments.
\<close>

theorem minval_maxval_skip_NaN:
  "minmaxval Math_min xs =
     (if list_all isNaN xs then NaN else Math_min (filter (\<lambda>a. \<not> isNaN a) xs)) \<and>
   minmaxval Math_max xs =
     (if list_all isNaN xs then NaN else Math_max (filter (\<lambda>a. \<not> isNaN a) xs)) \<and>
   (\<not> list_all isNaN xs \<longrightarrow>
      minmaxval Math_min xs \<in> set xs \<and> \<not> isNaN (minmaxval Math_min xs) \<and>
      (\<forall>y \<in> set xs. \<not> isNaN y \<longrightarrow> \<not> js_lt y (minmaxval Math_min xs)) \<and>
      minmaxval Math_max xs \<in> set xs \<and> \<not> isNaN (minmaxval Math_max xs) \<and>
      (\<forall>y \<in> set xs. \<not> isNaN y \<longrightarrow> \<not> js_lt (minmaxval Math_max xs) y)) \<and>
   (list_ex isNaN xs \<longrightarrow> Math_min xs = NaN \<and> Math_max xs = NaN) \<and>
   (\<exists>e. xex M = Inr e \<and>
        map_option (\<lambda>d. (d_type d, d_args d, d_amax d, d_eval d)) (get e ''min'') =
          Some (''Function'', Some (Fin 2), Some PInf, Some Math_min) \<and>
        map_option (\<lambda>d. (d_type d, d_args d, d_amax d, d_eval d)) (get e ''max'') =
          Some (''Function'', Some (Fin 2), Some PInf, Some Math_max) \<and>
        map_option (\<lambda>d. (d_type d, d_args d, d_amax d, d_eval d)) (get e ''minval'') =
          Some (''Function'', Some (Fin 2), Some PInf, Some (minmaxval Math_min)) \<and>
        map_option (\<lambda>d. (d_type d, d_args d, d_amax d, d_eval d)) (get e ''maxval'') =
          Some (''Function'', Some (Fin 2), Some PInf, Some (minmaxval Math_max)))"
proof (intro conjI impI)
  show "minmaxval Math_min xs =
     (if list_all isNaN xs then NaN else Math_min (filter (\<lambda>a. \<not> isNaN a) xs))"
    by (simp add: minmaxval_all_NaN minmaxval_filter)
  show "minmaxval Math_max xs =
     (if list_all isNaN xs then NaN else Math_max (filter (\<lambda>a. \<not> isNaN a) xs))"
    by (simp add: minmaxval_all_NaN minmaxval_filter)
next
  assume a: "\<not> list_all isNaN xs"
  let ?ys = "filter (\<lambda>a. \<not> isNaN a) xs"
  from a have ne: "?ys \<noteq> []"
    by (simp add: filter_empty_conv list_all_iff)
  have nn: "\<not> list_ex isNaN ?ys"
    by (simp add: list_ex_iff)
  from Math_min_least [OF ne nn] minmaxval_filter(1) [OF a]
  show "minmaxval Math_min xs \<in> set xs" "\<not> isNaN (minmaxval Math_min xs)"
    "\<forall>y \<in> set xs. \<not> isNaN y \<longrightarrow> \<not> js_lt y (minmaxval Math_min xs)"
    by auto
  from Math_max_greatest [OF ne nn] minmaxval_filter(2) [OF a]
  show "minmaxval Math_max xs \<in> set xs" "\<not> isNaN (minmaxval Math_max xs)"
    "\<forall>y \<in> set xs. \<not> isNaN y \<longrightarrow> \<not> js_lt (minmaxval Math_max xs) y"
    by auto
next
  assume "list_ex isNaN xs"
  then show "Math_min xs = NaN" "Math_max xs = NaN"
    by (simp_all add: Math_min_def Math_max_def foldl_min2_any foldl_max2_any)
next
  from xex_lang [of M] obtain e
    where e: "xex M = Inr e" and L: "lang e = find_defn (map call_defn (xex_calls M))"
    by blast
  have "map_option (\<lambda>d. (d_type d, d_args d, d_amax d, d_eval d)) (get e ''min'') =
          Some (''Function'', Some (Fin 2), Some PInf, Some Math_min)"
    "map_option (\<lambda>d. (d_type d, d_args d, d_amax d, d_eval d)) (get e ''max'') =
          Some (''Function'', Some (Fin 2), Some PInf, Some Math_max)"
    "map_option (\<lambda>d. (d_type d, d_args d, d_amax d, d_eval d)) (get e ''minval'') =
          Some (''Function'', Some (Fin 2), Some PInf, Some (minmaxval Math_min))"
    "map_option (\<lambda>d. (d_type d, d_args d, d_amax d, d_eval d)) (get e ''maxval'') =
          Some (''Function'', Some (Fin 2), Some PInf, Some (minmaxval Math_max))"
    by (simp_all add: L env_simps)
  with e show "\<exists>e. xex M = Inr e \<and>
        map_option (\<lambda>d. (d_type d, d_args d, d_amax d, d_eval d)) (get e ''min'') =
          Some (''Function'', Some (Fin 2), Some PInf, Some Math_min) \<and>
        map_option (\<lambda>d. (d_type d, d_args d, d_amax d, d_eval d)) (get e ''max'') =
          Some (''Function'', Some (Fin 2), Some PInf, Some Math_max) \<and>
        map_option (\<lambda>d. (d_type d, d_args d, d_amax d, d_eval d)) (get e ''minval'') =
          Some (''Function'', Some (Fin 2), Some PInf, Some (minmaxval Math_min)) \<and>
        map_option (\<lambda>d. (d_type d, d_args d, d_amax d, d_eval d)) (get e ''maxval'') =
          Some (''Function'', Some (Fin 2), Some PInf, Some (minmaxval Math_max))"
    by blast
qed

theorem minval_maxval_skip_NaN_witness:
  "minmaxval Math_min [Fin 3, NaN, Fin 1] = Fin 1 \<and>
   minmaxval Math_max [Fin 3, NaN, Fin 1] = Fin 3 \<and>
   Math_min [Fin 3, NaN, Fin 1] = NaN \<and> Math_max [Fin 3, NaN, Fin 1] = NaN \<and>
   minmaxval Math_min [NaN, NaN] = NaN \<and> minmaxval Math_max [NaN, NaN] = NaN"
  using minval_maxval_skip_NaN [of "[Fin 3, NaN, Fin 1]" "\<lambda>name xs. NaN"]
    minval_maxval_skip_NaN [of "[NaN, NaN]" "\<lambda>name xs. NaN"]
  by (simp add: Math_min_def Math_max_def min2_def max2_def js_lt_def rank_less_def)

end
